theory Spec2Isabelle
  imports Complex_Main "HOL-Library.Multiset"
begin

section \<open>Python values used by the load test harness\<close>

text \<open>
  The harness is one Python module, \<^verbatim>\<open>loadtest.py\<close>. Exceptions that its
  expressions can raise are values of \<open>py_error\<close>; a function that can raise returns
  \<open>py_error + 'a\<close> with \<open>Inl\<close> for the exception.
\<close>

datatype py_error =
    ZeroDivisionError | IndexError | ValueError | StatisticsError | UnicodeEncodeError

text \<open>Sequencing: the first exception raised ends the computation.\<close>

definition bind :: "py_error + 'a \<Rightarrow> ('a \<Rightarrow> py_error + 'b) \<Rightarrow> py_error + 'b" where
  "bind m f = (case m of Inl e \<Rightarrow> Inl e | Inr x \<Rightarrow> f x)"

text \<open>
  A \<^verbatim>\<open>bytes\<close> object is a list of 8-bit characters. A Python \<^verbatim>\<open>str\<close> whose
  length and encoding matter (the \<^verbatim>\<open>want_ref\<close> argument) is the list of its Unicode
  code points. Strings that are only compared, concatenated and stored (repository
  paths, header values, error messages) are kept as \<open>string\<close>.
\<close>

type_synonym bytes = string
type_synonym unicode = "nat list"

definition ascii :: "string \<Rightarrow> unicode" where
  "ascii s = map of_char s"

subsection \<open>\<^verbatim>\<open>str.encode()\<close>: strict UTF-8\<close>

text \<open>
  \<^verbatim>\<open>str.encode()\<close> is the standard library's UTF-8 encoder with the \<^verbatim>\<open>strict\<close>
  error handler: one to four bytes per code point, and \<^verbatim>\<open>UnicodeEncodeError\<close> for a
  surrogate code point (U+D800 to U+DFFF), which a Python \<^verbatim>\<open>str\<close> may contain.
  Code points of a \<^verbatim>\<open>str\<close> do not exceed U+10FFFF.
\<close>

definition is_surrogate :: "nat \<Rightarrow> bool" where
  "is_surrogate cp = (0xD800 \<le> cp \<and> cp < 0xE000)"

definition utf8_bytes :: "nat \<Rightarrow> py_error + bytes" where
  "utf8_bytes cp =
     (if cp < 0x80 then Inr [char_of cp]
      else if cp < 0x800 then
        Inr [char_of (0xC0 + cp div 0x40), char_of (0x80 + cp mod 0x40)]
      else if is_surrogate cp then Inl UnicodeEncodeError
      else if cp < 0x10000 then
        Inr [char_of (0xE0 + cp div 0x1000), char_of (0x80 + cp div 0x40 mod 0x40),
             char_of (0x80 + cp mod 0x40)]
      else
        Inr [char_of (0xF0 + cp div 0x40000), char_of (0x80 + cp div 0x1000 mod 0x40),
             char_of (0x80 + cp div 0x40 mod 0x40), char_of (0x80 + cp mod 0x40)])"

fun encode :: "unicode \<Rightarrow> py_error + bytes" where
  "encode [] = Inr []"
| "encode (cp # cps) =
     (case utf8_bytes cp of
        Inl e \<Rightarrow> Inl e
      | Inr b \<Rightarrow> (case encode cps of Inl e \<Rightarrow> Inl e | Inr bs \<Rightarrow> Inr (b @ bs)))"

subsection \<open>Number formatting\<close>

text \<open>\<^verbatim>\<open>str(n)\<close> for an integer, as the f-string \<^verbatim>\<open>f"HTTP {code}"\<close> renders it.\<close>

fun dec_digits :: "nat \<Rightarrow> string" where
  "dec_digits n =
     (if n < 10 then [''0123456789'' ! n]
      else dec_digits (n div 10) @ [''0123456789'' ! (n mod 10)])"

declare dec_digits.simps [simp del]

definition str_int :: "int \<Rightarrow> string" where
  "str_int i = (if i < 0 then CHR ''-'' # dec_digits (nat (- i)) else dec_digits (nat i))"

text \<open>
  The format specification \<^verbatim>\<open>04x\<close> applied to a non-negative integer: lowercase
  hexadecimal digits, padded with zeros on the left up to a minimum width of four.
\<close>

fun hex_digits :: "nat \<Rightarrow> string" where
  "hex_digits n =
     (if n < 16 then [''0123456789abcdef'' ! n]
      else hex_digits (n div 16) @ [''0123456789abcdef'' ! (n mod 16)])"

declare hex_digits.simps [simp del]

definition format_04x :: "nat \<Rightarrow> string" where
  "format_04x n = (let h = hex_digits n in replicate (4 - length h) CHR ''0'' @ h)"

text \<open>Reading a hexadecimal digit string back, used to state what a prefix denotes.\<close>

definition hex_digit_value :: "char \<Rightarrow> nat" where
  "hex_digit_value c =
     (let k = (of_char c :: nat)
      in if 48 \<le> k \<and> k < 58 then k - 48 else k - 87)"

definition hex_value :: "string \<Rightarrow> nat" where
  "hex_value s = foldl (\<lambda>acc c. 16 * acc + hex_digit_value c) 0 s"

subsection \<open>Binary64 floating point\<close>

text \<open>
  A Python \<^verbatim>\<open>float\<close> is an IEEE 754 binary64 number. A finite one is the real number
  it denotes, and every arithmetic operation returns the exact result rounded to 53
  significant bits, ties to even. The exponent range is not bounded here: no quantity
  of the harness (a list length, a ratio of two list lengths, a clock reading in
  seconds) comes near the overflow or the subnormal range.
\<close>

fun bit_length :: "nat \<Rightarrow> nat" where
  "bit_length n = (if n = 0 then 0 else Suc (bit_length (n div 2)))"

declare bit_length.simps [simp del]

text \<open>The binary exponent \<open>e\<close> of a positive real: \<open>2^e \<le> x < 2^(e+1)\<close>.\<close>

definition float_exponent :: "real \<Rightarrow> int" where
  "float_exponent x =
     (if 1 \<le> x then int (bit_length (nat \<lfloor>x\<rfloor>)) - 1
      else - int (bit_length (nat (\<lceil>1 / x\<rceil> - 1))))"

text \<open>The spacing of binary64 numbers with exponent \<open>e\<close>: \<open>2^(e - 52)\<close>.\<close>

definition ulp :: "int \<Rightarrow> real" where
  "ulp e = (if 52 \<le> e then 2 ^ nat (e - 52) else 1 / 2 ^ nat (52 - e))"

definition round_half_even :: "real \<Rightarrow> int" where
  "round_half_even x =
     (let f = \<lfloor>x\<rfloor>; r = x - of_int f
      in if r < 1 / 2 then f
         else if 1 / 2 < r then f + 1
         else if even f then f else f + 1)"

definition float_round :: "real \<Rightarrow> real" where
  "float_round x =
     (if x = 0 then 0
      else let a = \<bar>x\<bar>;
               u = ulp (float_exponent a);
               m = of_int (round_half_even (a / u)) * u
           in if x < 0 then - m else m)"

text \<open>
  \<^verbatim>\<open>float(n)\<close> for an integer, float multiplication and subtraction, true division
  (which raises on a zero divisor, for \<^verbatim>\<open>int / int\<close> and for \<^verbatim>\<open>float / float\<close>
  alike), and \<^verbatim>\<open>int(x)\<close>, which truncates toward zero.
\<close>

definition float_of_int :: "int \<Rightarrow> real" where
  "float_of_int n = float_round (of_int n)"

definition float_mul :: "real \<Rightarrow> real \<Rightarrow> real" where
  "float_mul x y = float_round (x * y)"

definition float_add :: "real \<Rightarrow> real \<Rightarrow> real" where
  "float_add x y = float_round (x + y)"

definition float_sub :: "real \<Rightarrow> real \<Rightarrow> real" where
  "float_sub x y = float_round (x - y)"

definition float_div :: "real \<Rightarrow> real \<Rightarrow> py_error + real" where
  "float_div x y = (if y = 0 then Inl ZeroDivisionError else Inr (float_round (x / y)))"

definition int_truediv :: "int \<Rightarrow> int \<Rightarrow> py_error + real" where
  "int_truediv a b =
     (if b = 0 then Inl ZeroDivisionError else Inr (float_round (of_int a / of_int b)))"

definition int_of_float :: "real \<Rightarrow> int" where
  "int_of_float x = (if 0 \<le> x then \<lfloor>x\<rfloor> else \<lceil>x\<rceil>)"

text \<open>
  The floats that the decimal literals \<^verbatim>\<open>0.95\<close>, \<^verbatim>\<open>0.99\<close> and \<^verbatim>\<open>0.8\<close> of the
  source denote: the nearest binary64 numbers.
\<close>

definition lit_0_95 :: real where
  "lit_0_95 = float_round (95 / 100)"

definition lit_0_99 :: real where
  "lit_0_99 = float_round (99 / 100)"

definition lit_0_8 :: real where
  "lit_0_8 = float_round (8 / 10)"

section \<open>The protocol client\<close>

subsection \<open>Request payloads\<close>

text \<open>
  The body that \<^verbatim>\<open>ls_refs\<close> posts: adjacent bytes literals, one per line of the
  source.
\<close>

definition ls_refs_payload :: bytes where
  "ls_refs_payload =
     ''0014command=ls-refs\<newline>'' @
     ''0001'' @
     ''0009peel\<newline>'' @
     ''000csymrefs\<newline>'' @
     ''000bunborn\<newline>'' @
     ''0014ref-prefix refs/\<newline>'' @
     ''0000''"

text \<open>
  The body that \<^verbatim>\<open>fetch\<close> posts. \<^verbatim>\<open>want_line\<close> is the encoded f-string
  \<^verbatim>\<open>f"want {want_ref}\n"\<close>; encoding happens before the \<^verbatim>\<open>try\<close> block, so its
  exception leaves \<^verbatim>\<open>fetch\<close>.
\<close>

definition fetch_payload :: "unicode \<Rightarrow> py_error + bytes" where
  "fetch_payload want_ref =
     (case encode (ascii ''want '' @ want_ref @ ascii ''\<newline>'') of
        Inl e \<Rightarrow> Inl e
      | Inr want_line \<Rightarrow>
          Inr (''0011command=fetch\<newline>'' @
               ''0001'' @
               ''000cthin-pack\<newline>'' @
               ''000cofs-delta\<newline>'' @
               format_04x (length want_line + 4) @
               want_line @
               ''00000009done\<newline>'' @
               ''0000''))"

text \<open>
  The pkt-line framing rule of the specification, for comparison with the literals
  above: a line is its content preceded by the byte count of prefix plus content, as
  four lowercase hexadecimal digits.
\<close>

definition spec_pkt_line :: "bytes \<Rightarrow> bytes" where
  "spec_pkt_line line_content = format_04x (length line_content + 4) @ line_content"

subsection \<open>One HTTP exchange\<close>

text \<open>
  \<^verbatim>\<open>session.post\<close> either returns a response, of which the client reads the status
  code, the body and the headers, or raises an exception, of which the client keeps
  the message \<^verbatim>\<open>str(e)\<close>.
\<close>

datatype http_outcome =
    Response (status_code: int) (content: bytes) (headers: "string \<rightharpoonup> string")
  | Raised string

text \<open>
  The environment of one client call: what the network answers to a request (the base
  URL, the path \<^verbatim>\<open>/{repo_path}/git-upload-pack\<close>, the body), and the two readings of
  \<^verbatim>\<open>time.time()\<close>, before the request and after it returned or raised.
\<close>

record call_env =
  post :: "string \<Rightarrow> string \<Rightarrow> bytes \<Rightarrow> http_outcome"
  clock_start :: real
  clock_end :: real

record client =
  base_url :: string
  timeout :: int

definition upload_pack_path :: "string \<Rightarrow> string" where
  "upload_pack_path repo_path = ''/'' @ repo_path @ ''/git-upload-pack''"

definition elapsed_ms :: "call_env \<Rightarrow> real" where
  "elapsed_ms env = float_mul (float_sub (clock_end env) (clock_start env)) 1000"

definition headers_get :: "(string \<rightharpoonup> string) \<Rightarrow> string \<Rightarrow> string \<Rightarrow> string" where
  "headers_get h k dflt = (case h k of None \<Rightarrow> dflt | Some v \<Rightarrow> v)"

text \<open>The result tuple is \<open>(success, duration_ms, served_by, error)\<close>.\<close>

type_synonym call_result = "bool \<times> real \<times> string \<times> string"

definition ls_refs :: "client \<Rightarrow> call_env \<Rightarrow> string \<Rightarrow> call_result" where
  "ls_refs c env repo_path =
     (case post env (base_url c) (upload_pack_path repo_path) ls_refs_payload of
        Response code body hdrs \<Rightarrow>
          (let duration_ms = elapsed_ms env
           in if code \<noteq> 200 then (False, duration_ms, '''', ''HTTP '' @ str_int code)
              else if length body = 0 then (False, duration_ms, '''', ''Empty response'')
              else (True, duration_ms, headers_get hdrs ''X-Served-By'' '''', ''''))
      | Raised msg \<Rightarrow> (False, elapsed_ms env, '''', msg))"

definition fetch :: "client \<Rightarrow> call_env \<Rightarrow> string \<Rightarrow> unicode \<Rightarrow> py_error + call_result" where
  "fetch c env repo_path want_ref =
     (case fetch_payload want_ref of
        Inl e \<Rightarrow> Inl e
      | Inr payload \<Rightarrow>
          Inr (case post env (base_url c) (upload_pack_path repo_path) payload of
                 Response code body hdrs \<Rightarrow>
                   (let duration_ms = elapsed_ms env
                    in if code \<noteq> 200 then (False, duration_ms, '''', ''HTTP '' @ str_int code)
                       else (True, duration_ms, headers_get hdrs ''X-Served-By'' '''', ''''))
               | Raised msg \<Rightarrow> (False, elapsed_ms env, '''', msg)))"

section \<open>Test results and their statistics\<close>

text \<open>The dataclass \<^verbatim>\<open>TestResult\<close>.\<close>

record test_result =
  success :: bool
  duration_ms :: real
  repo :: string
  operation :: string
  served_by :: string
  error :: string

text \<open>
  \<^verbatim>\<open>LoadTestRunner\<close>: the constructor's arguments and the result list that
  \<^verbatim>\<open>run\<close> extends.
\<close>

record runner =
  target_url :: string
  repositories :: "string list"
  num_workers :: int
  requests_per_worker :: int
  think_time_ms :: int
  results :: "test_result list"

definition init :: "string \<Rightarrow> string list \<Rightarrow> int \<Rightarrow> int \<Rightarrow> int \<Rightarrow> runner" where
  "init url repos workers requests think =
     \<lparr>target_url = url, repositories = repos, num_workers = workers,
      requests_per_worker = requests, think_time_ms = think, results = []\<rparr>"

subsection \<open>Built-ins and library functions on lists\<close>

text \<open>
  A counting dictionary is an association list in insertion order, as a Python
  \<^verbatim>\<open>dict\<close> keeps it. \<open>bump\<close> is the statement
  \<^verbatim>\<open>d[k] = d.get(k, 0) + 1\<close>.
\<close>

fun bump :: "('k \<times> nat) list \<Rightarrow> 'k \<Rightarrow> ('k \<times> nat) list" where
  "bump [] k = [(k, 1)]"
| "bump ((k', n) # d) k = (if k' = k then (k', n + 1) # d else (k', n) # bump d k)"


text \<open>
  \<^verbatim>\<open>xs[i]\<close>: a negative index counts from the end, an index out of range raises.
\<close>

definition list_index :: "'a list \<Rightarrow> int \<Rightarrow> py_error + 'a" where
  "list_index xs i =
     (let n = int (length xs); j = (if i < 0 then i + n else i)
      in if j < 0 \<or> n \<le> j then Inl IndexError else Inr (xs ! nat j))"

text \<open>\<^verbatim>\<open>min\<close> and \<^verbatim>\<open>max\<close> of a list raise \<^verbatim>\<open>ValueError\<close> on an empty one.\<close>

fun py_min :: "real list \<Rightarrow> py_error + real" where
  "py_min [] = Inl ValueError"
| "py_min (x # xs) = Inr (foldl min x xs)"

fun py_max :: "real list \<Rightarrow> py_error + real" where
  "py_max [] = Inl ValueError"
| "py_max (x # xs) = Inr (foldl max x xs)"

text \<open>
  \<^verbatim>\<open>statistics.mean\<close> sums the data exactly, divides exactly and converts the
  quotient to a float once. \<^verbatim>\<open>statistics.median\<close> sorts and returns the middle
  element, or the float mean of the two middle elements. Both raise
  \<^verbatim>\<open>StatisticsError\<close> on empty data.
\<close>

definition mean :: "real list \<Rightarrow> py_error + real" where
  "mean xs =
     (if xs = [] then Inl StatisticsError
      else Inr (float_round (sum_list xs / of_nat (length xs))))"

definition median :: "real list \<Rightarrow> py_error + real" where
  "median xs =
     (let data = sort xs; n = length data
      in if n = 0 then Inl StatisticsError
         else if n mod 2 = 1 then Inr (data ! (n div 2))
         else bind (float_div (float_add (data ! (n div 2 - 1)) (data ! (n div 2))) 2) Inr)"

subsection \<open>\<^verbatim>\<open>_compute_statistics\<close>\<close>

text \<open>
  The expression \<^verbatim>\<open>sorted(durations)[int(len(durations) * q)]\<close> for a float \<open>q\<close>.
\<close>

definition percentile_index :: "nat \<Rightarrow> real \<Rightarrow> int" where
  "percentile_index n q = int_of_float (float_mul (float_of_int (int n)) q)"

definition percentile :: "real list \<Rightarrow> real \<Rightarrow> py_error + real" where
  "percentile durations q =
     list_index (sort durations) (percentile_index (length durations) q)"

text \<open>The nested dictionary under the key \<^verbatim>\<open>"duration_ms"\<close>.\<close>

record duration_stats =
  min_ms :: real
  max_ms :: real
  mean_ms :: real
  median_ms :: real
  p95 :: real
  p99 :: real

definition duration_summary :: "real list \<Rightarrow> py_error + duration_stats" where
  "duration_summary durations =
     bind (if durations \<noteq> [] then py_min durations else Inr 0) (\<lambda>v_min.
     bind (if durations \<noteq> [] then py_max durations else Inr 0) (\<lambda>v_max.
     bind (if durations \<noteq> [] then mean durations else Inr 0) (\<lambda>v_mean.
     bind (if durations \<noteq> [] then median durations else Inr 0) (\<lambda>v_median.
     bind (if durations \<noteq> [] then percentile durations lit_0_95 else Inr 0) (\<lambda>v_p95.
     bind (if durations \<noteq> [] then percentile durations lit_0_99 else Inr 0) (\<lambda>v_p99.
     Inr \<lparr>min_ms = v_min, max_ms = v_max, mean_ms = v_mean, median_ms = v_median,
          p95 = v_p95, p99 = v_p99\<rparr>))))))"

text \<open>The dictionary that \<^verbatim>\<open>_compute_statistics\<close> returns.\<close>

record stats =
  total_requests :: nat
  successful :: nat
  failed :: nat
  success_rate :: real
  total_duration_sec :: real
  requests_per_sec :: real
  duration_ms_summary :: duration_stats
  server_distribution :: "(string \<times> nat) list"
  repo_distribution :: "(string \<times> nat) list"
  errors :: "(string \<times> nat) list"

definition server_counts :: "test_result list \<Rightarrow> (string \<times> nat) list" where
  "server_counts rs =
     foldl (\<lambda>d r. if served_by r \<noteq> [] then bump d (served_by r) else d) [] rs"

definition repo_requests :: "test_result list \<Rightarrow> (string \<times> nat) list" where
  "repo_requests rs = foldl (\<lambda>d r. bump d (repo r)) [] rs"

definition error_counts :: "test_result list \<Rightarrow> (string \<times> nat) list" where
  "error_counts failed_rs = foldl (\<lambda>d r. bump d (error r)) [] failed_rs"

text \<open>
  The entries of the dictionary display are evaluated in the order written, so the
  division for \<^verbatim>\<open>success_rate\<close> comes first, then the one for
  \<^verbatim>\<open>requests_per_sec\<close>, then the duration block.
\<close>

definition compute_statistics :: "runner \<Rightarrow> real \<Rightarrow> py_error + stats" where
  "compute_statistics self total_duration =
     (let n_total = length (results self);
          successful_rs = filter success (results self);
          failed_rs = filter (\<lambda>r. \<not> success r) (results self);
          durations = map duration_ms successful_rs
      in
        bind (int_truediv (int (length successful_rs)) (int n_total)) (\<lambda>ratio.
        bind (float_div (float_of_int (int n_total)) total_duration) (\<lambda>rps.
        bind (duration_summary durations) (\<lambda>ds.
        Inr \<lparr>total_requests = n_total,
             successful = length successful_rs,
             failed = length failed_rs,
             success_rate = float_mul ratio 100,
             total_duration_sec = total_duration,
             requests_per_sec = rps,
             duration_ms_summary = ds,
             server_distribution = server_counts (results self),
             repo_distribution = repo_requests (results self),
             errors = error_counts failed_rs\<rparr>))))"

section \<open>Workers and the run\<close>

text \<open>
  What one iteration of a worker draws from its surroundings: the value behind
  \<^verbatim>\<open>random.choice\<close>, the value of \<^verbatim>\<open>random.random()\<close>, and the HTTP exchange.
\<close>

record request_env =
  pick :: nat
  coin :: real
  call :: call_env

definition random_choice :: "nat \<Rightarrow> 'a list \<Rightarrow> py_error + 'a" where
  "random_choice r xs = (if xs = [] then Inl IndexError else Inr (xs ! (r mod length xs)))"

text \<open>The placeholder \<^verbatim>\<open>"0" * 40\<close>.\<close>

definition dummy_ref :: unicode where
  "dummy_ref = replicate 40 (of_char CHR ''0'')"

text \<open>
  The body of the loop in \<^verbatim>\<open>worker_task\<close>: choose a repository, choose the
  operation, call the client, build the \<^verbatim>\<open>TestResult\<close>.
\<close>

definition request :: "runner \<Rightarrow> client \<Rightarrow> request_env \<Rightarrow> py_error + test_result" where
  "request self c env =
     bind (random_choice (pick env) (repositories self)) (\<lambda>repo_path.
       if coin env < lit_0_8 then
         (case ls_refs c (call env) repo_path of
            (ok, duration, served, err) \<Rightarrow>
              Inr \<lparr>success = ok, duration_ms = duration, repo = repo_path,
                   operation = ''ls-refs'', served_by = served, error = err\<rparr>)
       else
         bind (fetch c (call env) repo_path dummy_ref) (\<lambda>(ok, duration, served, err).
           Inr \<lparr>success = ok, duration_ms = duration, repo = repo_path,
                operation = ''fetch'', served_by = served, error = err\<rparr>))"

text \<open>
  The loop of \<^verbatim>\<open>worker_task\<close> over \<^verbatim>\<open>range(self.requests_per_worker)\<close>, one
  result appended per iteration. Printing the progress line and sleeping for the think
  time change nothing that is returned.
\<close>

fun worker_loop ::
  "runner \<Rightarrow> client \<Rightarrow> (nat \<Rightarrow> request_env) \<Rightarrow> nat list \<Rightarrow> test_result list
     \<Rightarrow> py_error + test_result list" where
  "worker_loop self c env [] acc = Inr acc"
| "worker_loop self c env (i # todo) acc =
     (case request self c (env i) of
        Inl e \<Rightarrow> Inl e
      | Inr r \<Rightarrow> worker_loop self c env todo (acc @ [r]))"

definition worker_task ::
  "runner \<Rightarrow> nat \<Rightarrow> (nat \<Rightarrow> request_env) \<Rightarrow> py_error + test_result list" where
  "worker_task self worker_id env =
     worker_loop self \<lparr>base_url = target_url self, timeout = 60\<rparr> env
       [0..<nat (requests_per_worker self)] []"

text \<open>
  The surroundings of a run: the clock before and after, the order in which the
  futures complete, and what every iteration of every worker draws.
  \<^verbatim>\<open>as_completed\<close> yields every submitted future exactly once; the schedule says
  which of the futures still pending completes next.
\<close>

record run_env =
  start_time :: real
  end_time :: real
  schedule :: "nat list"
  worker_env :: "nat \<Rightarrow> nat \<Rightarrow> request_env"

function as_completed :: "nat list \<Rightarrow> 'a list \<Rightarrow> 'a list" where
  "as_completed sched pending =
     (if pending = [] then []
      else let k = (case sched of [] \<Rightarrow> 0 | s # _ \<Rightarrow> s mod length pending)
           in pending ! k # as_completed (tl sched) (take k pending @ drop (Suc k) pending))"
  by pat_completeness auto
termination
proof (relation "measure (\<lambda>(sched, pending). length pending)")
  show "wf (measure (\<lambda>(sched, pending). length pending))"
    by simp
next
  fix sched :: "nat list" and pending :: "'a list" and k :: nat
  assume nonempty: "pending \<noteq> []"
    and k: "k = (case sched of [] \<Rightarrow> 0 | s # x \<Rightarrow> s mod length pending)"
  have "k < length pending"
    using nonempty k by (cases sched) simp_all
  then show "((tl sched, take k pending @ drop (Suc k) pending), sched, pending)
      \<in> measure (\<lambda>(sched, pending). length pending)"
    by simp
qed

declare as_completed.simps [simp del]

text \<open>
  \<^verbatim>\<open>self.results.extend(future.result())\<close> for each completed future in turn;
  \<^verbatim>\<open>future.result()\<close> raises what the worker raised.
\<close>

fun collect ::
  "runner \<Rightarrow> (py_error + test_result list) list \<Rightarrow> runner \<times> (py_error + unit)" where
  "collect self [] = (self, Inr ())"
| "collect self (Inl e # futures) = (self, Inl e)"
| "collect self (Inr rs # futures) = collect (self\<lparr>results := results self @ rs\<rparr>) futures"

text \<open>
  \<^verbatim>\<open>run\<close>: \<^verbatim>\<open>ThreadPoolExecutor(max_workers=n)\<close> raises \<^verbatim>\<open>ValueError\<close> unless
  \<open>n\<close> is positive. The runner is returned with the results it has collected.
\<close>

definition run :: "runner \<Rightarrow> run_env \<Rightarrow> runner \<times> (py_error + stats)" where
  "run self env =
     (if num_workers self \<le> 0 then (self, Inl ValueError)
      else
        let futures = map (\<lambda>i. worker_task self i (worker_env env i))
                          [0..<nat (num_workers self)]
        in case collect self (as_completed (schedule env) futures) of
             (self', Inl e) \<Rightarrow> (self', Inl e)
           | (self', Inr u) \<Rightarrow>
               (self', compute_statistics self' (float_sub (end_time env) (start_time env))))"

section \<open>Properties of the hexadecimal format\<close>

text \<open>
  \<open>format_04x n\<close> consists of lowercase hexadecimal digits, denotes \<open>n\<close>, and has
  at least four characters: exactly four when \<open>n < 65536\<close>.
\<close>

lemma hex_digits_nonempty: "hex_digits n \<noteq> []"
  by (subst hex_digits.simps) simp

lemma hex_digit_value_nth: "k < 16 \<Longrightarrow> hex_digit_value (''0123456789abcdef'' ! k) = k"
proof -
  assume "k < 16"
  then have "k = 0 \<or> k = 1 \<or> k = 2 \<or> k = 3 \<or> k = 4 \<or> k = 5 \<or> k = 6 \<or> k = 7 \<or>
    k = 8 \<or> k = 9 \<or> k = 10 \<or> k = 11 \<or> k = 12 \<or> k = 13 \<or> k = 14 \<or> k = 15"
    by presburger
  then show ?thesis by (elim disjE) (simp_all add: hex_digit_value_def)
qed

lemma hex_value_append: "hex_value (s @ [c]) = 16 * hex_value s + hex_digit_value c"
  by (simp add: hex_value_def)

lemma hex_value_hex_digits: "hex_value (hex_digits n) = n"
proof (induction n rule: hex_digits.induct)
  case (1 n)
  show ?case
  proof (cases "n < 16")
    case True
    then show ?thesis
      by (subst hex_digits.simps) (simp add: hex_value_def hex_digit_value_nth)
  next
    case False
    then have "hex_value (hex_digits n) = 16 * hex_value (hex_digits (n div 16)) + hex_digit_value (''0123456789abcdef'' ! (n mod 16))"
      by (subst hex_digits.simps) (simp add: hex_value_append)
    with False "1.IH" show ?thesis by (simp add: hex_digit_value_nth)
  qed
qed

lemma hex_value_zeros: "hex_value (replicate k CHR ''0'' @ s) = hex_value s"
  by (induction k) (simp_all add: hex_value_def hex_digit_value_def)

lemma hex_value_format_04x: "hex_value (format_04x n) = n"
  by (simp add: format_04x_def Let_def hex_value_zeros hex_value_hex_digits)

lemma length_format_04x_ge: "4 \<le> length (format_04x n)"
  by (simp add: format_04x_def Let_def)

lemma length_hex_digits_le: "n < 16 ^ k \<Longrightarrow> 0 < k \<Longrightarrow> length (hex_digits n) \<le> k"
proof (induction n arbitrary: k rule: hex_digits.induct)
  case (1 n)
  show ?case
  proof (cases "n < 16")
    case True
    then show ?thesis using "1.prems" by (subst hex_digits.simps) simp
  next
    case False
    from "1.prems" obtain j where k: "k = Suc j" by (cases k) auto
    from False "1.prems" k have "0 < j" by (cases j) auto
    moreover from "1.prems" k have "n div 16 < 16 ^ j"
      by (simp add: less_mult_imp_div_less mult.commute)
    ultimately have "length (hex_digits (n div 16)) \<le> j" using "1.IH" False by simp
    then show ?thesis using False k by (subst hex_digits.simps) simp
  qed
qed

lemma length_format_04x_small: "n < 65536 \<Longrightarrow> length (format_04x n) = 4"
proof -
  assume "n < 65536"
  then have "n < 16 ^ 4" by simp
  then have "length (hex_digits n) \<le> 4" by (rule length_hex_digits_le) simp
  then show ?thesis by (simp add: format_04x_def Let_def)
qed

lemma hex_digits_chars: "set (hex_digits n) \<subseteq> set ''0123456789abcdef''"
proof (induction n rule: hex_digits.induct)
  case (1 n)
  have nth: "\<And>k. k < 16 \<Longrightarrow> ''0123456789abcdef'' ! k \<in> set ''0123456789abcdef''"
    by (rule nth_mem) simp
  show ?case
  proof (cases "n < 16")
    case True
    then show ?thesis using nth[of n] by (subst hex_digits.simps) simp
  next
    case False
    then show ?thesis using "1.IH" nth[of "n mod 16"]
      by (subst hex_digits.simps) simp
  qed
qed

lemma format_04x_chars: "set (format_04x n) \<subseteq> set ''0123456789abcdef''"
  using hex_digits_chars[of n] by (auto simp: format_04x_def Let_def)

section \<open>Properties of the UTF-8 encoder\<close>

text \<open>
  Encoding fails exactly on strings with a surrogate code point, distributes over
  concatenation, and keeps the length of an ASCII string.
\<close>

lemma utf8_bytes_ok: "\<not> is_surrogate cp \<Longrightarrow> \<exists>b. utf8_bytes cp = Inr b"
  by (simp add: utf8_bytes_def)

lemma utf8_bytes_surrogate: "is_surrogate cp \<Longrightarrow> utf8_bytes cp = Inl UnicodeEncodeError"
  by (simp add: utf8_bytes_def is_surrogate_def)

lemma utf8_bytes_error: "utf8_bytes cp = Inl e \<Longrightarrow> e = UnicodeEncodeError"
  by (auto simp: utf8_bytes_def split: if_splits)

lemma encode_error: "encode cps = Inl e \<Longrightarrow> e = UnicodeEncodeError"
  by (induction cps) (auto split: sum.splits dest: utf8_bytes_error)

lemma encode_ok: "list_all (\<lambda>cp. \<not> is_surrogate cp) cps \<Longrightarrow> \<exists>bs. encode cps = Inr bs"
proof (induction cps)
  case Nil
  show ?case by simp
next
  case (Cons cp cps)
  then obtain b bs where "utf8_bytes cp = Inr b" "encode cps = Inr bs"
    using utf8_bytes_ok[of cp] by auto
  then show ?case by simp
qed

lemma encode_surrogate:
  "\<not> list_all (\<lambda>cp. \<not> is_surrogate cp) cps \<Longrightarrow> encode cps = Inl UnicodeEncodeError"
proof (induction cps)
  case Nil
  then show ?case by simp
next
  case (Cons cp cps)
  show ?case
  proof (cases "is_surrogate cp")
    case True
    then show ?thesis by (simp add: utf8_bytes_surrogate)
  next
    case False
    with Cons.prems have "\<not> list_all (\<lambda>cp. \<not> is_surrogate cp) cps" by simp
    then have "encode cps = Inl UnicodeEncodeError" by (rule Cons.IH)
    then show ?thesis by (simp split: sum.splits add: utf8_bytes_error)
  qed
qed

lemma encode_append:
  "encode (xs @ ys) =
     (case encode xs of
        Inl e \<Rightarrow> Inl e
      | Inr a \<Rightarrow> (case encode ys of Inl e \<Rightarrow> Inl e | Inr b \<Rightarrow> Inr (a @ b)))"
  by (induction xs) (auto split: sum.splits dest: encode_error utf8_bytes_error)

lemma encode_ascii_length:
  "list_all (\<lambda>cp. cp < 128) cps \<Longrightarrow> encode cps = Inr bs \<Longrightarrow> length bs = length cps"
  by (induction cps arbitrary: bs) (auto simp: utf8_bytes_def split: sum.splits)

lemma encode_want: "encode (ascii ''want '') = Inr ''want ''"
  by (simp add: ascii_def utf8_bytes_def char_of_eq_iff)

lemma encode_newline: "encode (ascii ''\<newline>'') = Inr ''\<newline>''"
  by (simp add: ascii_def utf8_bytes_def char_of_eq_iff)

lemma ascii_not_surrogate: "list_all (\<lambda>cp. \<not> is_surrogate cp) (ascii s)"
proof -
  have "\<not> is_surrogate (of_char c)" for c
  proof -
    have "of_char c < (55296::nat)"
      by (rule less_trans[OF nat_of_char_less_256]) simp
    then show ?thesis by (simp add: is_surrogate_def)
  qed
  then show ?thesis
    by (simp add: ascii_def list_all_iff)
qed

section \<open>The payloads and the pkt-line framing rule\<close>

lemma replicate_numeral_Cons: "replicate (numeral k) x = x # replicate (pred_numeral k) x"
  by (simp add: numeral_eq_Suc)

lemma spec_pkt_line_command_ls_refs:
  "spec_pkt_line ''command=ls-refs\<newline>'' = ''0014command=ls-refs\<newline>''"
  by (simp add: spec_pkt_line_def format_04x_def hex_digits.simps replicate_numeral_Cons)

lemma spec_pkt_line_peel: "spec_pkt_line ''peel\<newline>'' = ''0009peel\<newline>''"
  by (simp add: spec_pkt_line_def format_04x_def hex_digits.simps replicate_numeral_Cons)

lemma spec_pkt_line_symrefs: "spec_pkt_line ''symrefs\<newline>'' = ''000csymrefs\<newline>''"
  by (simp add: spec_pkt_line_def format_04x_def hex_digits.simps replicate_numeral_Cons)

lemma spec_pkt_line_unborn: "spec_pkt_line ''unborn\<newline>'' = ''000bunborn\<newline>''"
  by (simp add: spec_pkt_line_def format_04x_def hex_digits.simps replicate_numeral_Cons)

lemma spec_pkt_line_ref_prefix:
  "spec_pkt_line ''ref-prefix refs/\<newline>'' = ''0015ref-prefix refs/\<newline>''"
  by (simp add: spec_pkt_line_def format_04x_def hex_digits.simps replicate_numeral_Cons)

lemma spec_pkt_line_command_fetch:
  "spec_pkt_line ''command=fetch\<newline>'' = ''0012command=fetch\<newline>''"
  by (simp add: spec_pkt_line_def format_04x_def hex_digits.simps replicate_numeral_Cons)

lemma spec_pkt_line_thin_pack: "spec_pkt_line ''thin-pack\<newline>'' = ''000ethin-pack\<newline>''"
  by (simp add: spec_pkt_line_def format_04x_def hex_digits.simps replicate_numeral_Cons)

lemma spec_pkt_line_ofs_delta: "spec_pkt_line ''ofs-delta\<newline>'' = ''000eofs-delta\<newline>''"
  by (simp add: spec_pkt_line_def format_04x_def hex_digits.simps replicate_numeral_Cons)

lemma spec_pkt_line_done: "spec_pkt_line ''done\<newline>'' = ''0009done\<newline>''"
  by (simp add: spec_pkt_line_def format_04x_def hex_digits.simps replicate_numeral_Cons)

text \<open>
  Claim C3 (every pkt-line of the ls-refs payload carries the length of prefix plus
  content). The payload is the concatenation of correctly framed lines for
  \<^verbatim>\<open>command=ls-refs\<close>, \<^verbatim>\<open>peel\<close>, \<^verbatim>\<open>symrefs\<close> and \<^verbatim>\<open>unborn\<close>, but the
  line \<^verbatim>\<open>ref-prefix refs/\<close> carries the prefix \<^verbatim>\<open>0014\<close> (20) while prefix plus
  content are 21 bytes, which the framing rule writes as \<^verbatim>\<open>0015\<close>.
\<close>

theorem ls_refs_ref_prefix_line_misframed:
  "ls_refs_payload =
     spec_pkt_line ''command=ls-refs\<newline>'' @ ''0001'' @
     spec_pkt_line ''peel\<newline>'' @
     spec_pkt_line ''symrefs\<newline>'' @
     spec_pkt_line ''unborn\<newline>'' @
     (''0014'' @ ''ref-prefix refs/\<newline>'') @ ''0000''
   \<and> spec_pkt_line ''ref-prefix refs/\<newline>'' = ''0015'' @ ''ref-prefix refs/\<newline>''
   \<and> hex_value ''0014'' = 20
   \<and> length (''0014'' @ ''ref-prefix refs/\<newline>'') = 21"
  by (simp add: ls_refs_payload_def spec_pkt_line_command_ls_refs spec_pkt_line_peel
      spec_pkt_line_symrefs spec_pkt_line_unborn spec_pkt_line_ref_prefix
      hex_value_def hex_digit_value_def)

lemma encode_dummy_want_line:
  "encode (ascii ''want '' @ dummy_ref @ ascii ''\<newline>'') =
     Inr ''want 0000000000000000000000000000000000000000\<newline>''"
  by (simp add: dummy_ref_def ascii_def utf8_bytes_def char_of_eq_iff replicate_numeral_Cons)

lemma fetch_payload_dummy:
  "fetch_payload dummy_ref =
     Inr (''0011command=fetch\<newline>0001000cthin-pack\<newline>000cofs-delta\<newline>'' @
          ''0032want 0000000000000000000000000000000000000000\<newline>'' @
          ''00000009done\<newline>0000'')"
  by (simp add: fetch_payload_def encode_dummy_want_line format_04x_def hex_digits.simps
      replicate_numeral_Cons)

text \<open>
  Claim C4 (every fixed pkt-line of the fetch payload carries the length of prefix plus
  content). For the placeholder ref the worker sends, the want line and the
  \<^verbatim>\<open>done\<close> line are framed as the rule says, while \<^verbatim>\<open>command=fetch\<close> carries
  \<^verbatim>\<open>0011\<close> where the rule gives \<^verbatim>\<open>0012\<close>, and \<^verbatim>\<open>thin-pack\<close> and
  \<^verbatim>\<open>ofs-delta\<close> carry \<^verbatim>\<open>000c\<close> where the rule gives \<^verbatim>\<open>000e\<close>.
\<close>

theorem fetch_fixed_lines_misframed:
  "fetch_payload dummy_ref =
     Inr ((''0011'' @ ''command=fetch\<newline>'') @ ''0001'' @
          (''000c'' @ ''thin-pack\<newline>'') @
          (''000c'' @ ''ofs-delta\<newline>'') @
          spec_pkt_line ''want 0000000000000000000000000000000000000000\<newline>'' @ ''0000'' @
          spec_pkt_line ''done\<newline>'' @ ''0000'')
   \<and> spec_pkt_line ''command=fetch\<newline>'' = ''0012'' @ ''command=fetch\<newline>''
   \<and> spec_pkt_line ''thin-pack\<newline>'' = ''000e'' @ ''thin-pack\<newline>''
   \<and> spec_pkt_line ''ofs-delta\<newline>'' = ''000e'' @ ''ofs-delta\<newline>''"
  by (simp add: fetch_payload_dummy spec_pkt_line_command_fetch spec_pkt_line_thin_pack
      spec_pkt_line_ofs_delta spec_pkt_line_done)
    (simp add: spec_pkt_line_def format_04x_def hex_digits.simps replicate_numeral_Cons)

text \<open>
  Claim C5 as stated says that encoding is total over any string. A Python string may
  hold a lone surrogate code point, and for one the strict UTF-8 encoder raises.
\<close>

theorem fetch_payload_surrogate_counterexample:
  "fetch_payload [0xD800] = Inl UnicodeEncodeError"
  by (simp add: fetch_payload_def encode_append encode_want utf8_bytes_def is_surrogate_def)

lemma fetch_payload_non_ascii:
  "fetch_payload [0xE9] =
     Inr (''0011command=fetch\<newline>0001000cthin-pack\<newline>000cofs-delta\<newline>'' @
          ''000c'' @ ''want '' @ [CHR 0xC3, CHR 0xA9] @ ''\<newline>'' @
          ''00000009done\<newline>0000'')
   \<and> format_04x (length (ascii ''want '' @ [0xE9] @ ascii ''\<newline>'') + 4) = ''000b''"
  by (simp add: fetch_payload_def encode_append encode_want encode_newline utf8_bytes_def
      ascii_def format_04x_def hex_digits.simps replicate_numeral_Cons char_of_eq_iff)

text \<open>
  Claim C5, amended. For a \<^verbatim>\<open>want_ref\<close> without surrogate code points the payload
  is built, and the prefix of its want line is the number of bytes of the UTF-8
  encoding of \<^verbatim>\<open>"want " + want_ref + "\n"\<close> plus 4, in lowercase hexadecimal digits,
  zero-padded to at least four digits: exactly four when that number is below 65536,
  and the number of bytes is the number of characters when \<^verbatim>\<open>want_ref\<close> is ASCII.
  For a \<^verbatim>\<open>want_ref\<close> with a surrogate code point, \<^verbatim>\<open>UnicodeEncodeError\<close> is raised.
\<close>

theorem fetch_want_line_prefix:
  "(list_all (\<lambda>cp. \<not> is_surrogate cp) want_ref \<longrightarrow>
      (\<exists>want_line.
         encode (ascii ''want '' @ want_ref @ ascii ''\<newline>'') = Inr want_line
       \<and> fetch_payload want_ref =
           Inr (''0011command=fetch\<newline>0001000cthin-pack\<newline>000cofs-delta\<newline>'' @
                format_04x (length want_line + 4) @ want_line @
                ''00000009done\<newline>0000'')
       \<and> hex_value (format_04x (length want_line + 4)) = length want_line + 4
       \<and> set (format_04x (length want_line + 4)) \<subseteq> set ''0123456789abcdef''
       \<and> 4 \<le> length (format_04x (length want_line + 4))
       \<and> (length want_line + 4 < 65536 \<longrightarrow> length (format_04x (length want_line + 4)) = 4)
       \<and> (list_all (\<lambda>cp. cp < 128) want_ref \<longrightarrow>
            length want_line = length (ascii ''want '' @ want_ref @ ascii ''\<newline>''))))
   \<and> (\<not> list_all (\<lambda>cp. \<not> is_surrogate cp) want_ref \<longrightarrow>
        fetch_payload want_ref = Inl UnicodeEncodeError)"
proof (intro conjI impI)
  assume ok: "list_all (\<lambda>cp. \<not> is_surrogate cp) want_ref"
  then obtain w where w: "encode want_ref = Inr w"
    using encode_ok by blast
  let ?line = "''want '' @ w @ ''\<newline>''"
  have enc: "encode (ascii ''want '' @ want_ref @ ascii ''\<newline>'') = Inr ?line"
    by (simp add: encode_append encode_want encode_newline w)
  have pay: "fetch_payload want_ref =
      Inr (''0011command=fetch\<newline>0001000cthin-pack\<newline>000cofs-delta\<newline>'' @
           format_04x (length ?line + 4) @ ?line @ ''00000009done\<newline>0000'')"
    unfolding fetch_payload_def enc by simp
  have small: "length ?line + 4 < 65536 \<longrightarrow> length (format_04x (length ?line + 4)) = 4"
    using length_format_04x_small by blast
  have asc: "list_all (\<lambda>cp. cp < 128) want_ref \<longrightarrow>
      length ?line = length (ascii ''want '' @ want_ref @ ascii ''\<newline>'')"
  proof
    assume "list_all (\<lambda>cp. cp < 128) want_ref"
    then have "length w = length want_ref" using w by (rule encode_ascii_length)
    then show "length ?line = length (ascii ''want '' @ want_ref @ ascii ''\<newline>'')"
      by (simp add: ascii_def)
  qed
  show "\<exists>want_line.
         encode (ascii ''want '' @ want_ref @ ascii ''\<newline>'') = Inr want_line
       \<and> fetch_payload want_ref =
           Inr (''0011command=fetch\<newline>0001000cthin-pack\<newline>000cofs-delta\<newline>'' @
                format_04x (length want_line + 4) @ want_line @
                ''00000009done\<newline>0000'')
       \<and> hex_value (format_04x (length want_line + 4)) = length want_line + 4
       \<and> set (format_04x (length want_line + 4)) \<subseteq> set ''0123456789abcdef''
       \<and> 4 \<le> length (format_04x (length want_line + 4))
       \<and> (length want_line + 4 < 65536 \<longrightarrow> length (format_04x (length want_line + 4)) = 4)
       \<and> (list_all (\<lambda>cp. cp < 128) want_ref \<longrightarrow>
            length want_line = length (ascii ''want '' @ want_ref @ ascii ''\<newline>''))"
    using enc pay small asc hex_value_format_04x format_04x_chars length_format_04x_ge
    by blast
next
  assume bad: "\<not> list_all (\<lambda>cp. \<not> is_surrogate cp) want_ref"
  have "\<not> list_all (\<lambda>cp. \<not> is_surrogate cp) (ascii ''want '' @ want_ref @ ascii ''\<newline>'')"
    using bad by simp
  then have "encode (ascii ''want '' @ want_ref @ ascii ''\<newline>'') = Inl UnicodeEncodeError"
    by (rule encode_surrogate)
  then show "fetch_payload want_ref = Inl UnicodeEncodeError"
    by (simp add: fetch_payload_def)
qed

text \<open>
  The amended claim C5 at the placeholder ref of forty zeros (prefix \<^verbatim>\<open>0032\<close>, 50
  bytes) and at a lone surrogate.
\<close>

theorem fetch_want_line_prefix_witness:
  "list_all (\<lambda>cp. \<not> is_surrogate cp) dummy_ref
   \<and> list_all (\<lambda>cp. cp < 128) dummy_ref
   \<and> fetch_payload dummy_ref =
       Inr (''0011command=fetch\<newline>0001000cthin-pack\<newline>000cofs-delta\<newline>'' @
            ''0032'' @ ''want 0000000000000000000000000000000000000000\<newline>'' @
            ''00000009done\<newline>0000'')
   \<and> hex_value ''0032'' = length ''want 0000000000000000000000000000000000000000\<newline>'' + 4
   \<and> \<not> list_all (\<lambda>cp. \<not> is_surrogate cp) [0xD800]
   \<and> fetch_payload [0xD800] = Inl UnicodeEncodeError"
proof -
  have a: "list_all (\<lambda>cp. \<not> is_surrogate cp) dummy_ref"
    by (simp add: dummy_ref_def is_surrogate_def list_all_iff)
  have b: "list_all (\<lambda>cp. cp < 128) dummy_ref"
    by (simp add: dummy_ref_def list_all_iff)
  have c: "\<not> list_all (\<lambda>cp. \<not> is_surrogate cp) [0xD800]"
    by (simp add: is_surrogate_def)
  from a fetch_want_line_prefix[of dummy_ref] obtain want_line where
    e: "encode (ascii ''want '' @ dummy_ref @ ascii ''\<newline>'') = Inr want_line" and
    p: "fetch_payload dummy_ref =
          Inr (''0011command=fetch\<newline>0001000cthin-pack\<newline>000cofs-delta\<newline>'' @
               format_04x (length want_line + 4) @ want_line @ ''00000009done\<newline>0000'')" and
    h: "hex_value (format_04x (length want_line + 4)) = length want_line + 4"
    by blast
  from e have wl: "want_line = ''want 0000000000000000000000000000000000000000\<newline>''"
    by (simp add: encode_dummy_want_line)
  have f: "format_04x (length ''want 0000000000000000000000000000000000000000\<newline>'' + 4) = ''0032''"
    by (simp add: format_04x_def hex_digits.simps replicate_numeral_Cons)
  from c fetch_want_line_prefix[of "[0xD800]"]
  have d: "fetch_payload [0xD800] = Inl UnicodeEncodeError" by blast
  show ?thesis using a b c d p h unfolding wl f by simp
qed

section \<open>Outcomes of the client operations\<close>

lemma ls_refs_success_iff:
  "fst (ls_refs c env path) \<longleftrightarrow>
     (\<exists>body hdrs. post env (base_url c) (upload_pack_path path) ls_refs_payload =
        Response 200 body hdrs \<and> body \<noteq> [])"
  by (auto simp: ls_refs_def Let_def split: http_outcome.splits)

lemma ls_refs_empty_body:
  "post env (base_url c) (upload_pack_path path) ls_refs_payload = Response 200 [] hdrs \<Longrightarrow>
     ls_refs c env path = (False, elapsed_ms env, '''', ''Empty response'')"
  by (simp add: ls_refs_def Let_def)

lemma fetch_success_iff:
  "fetch_payload want_ref = Inr payload \<Longrightarrow>
   fetch c env path want_ref = Inr r \<Longrightarrow>
   fst r \<longleftrightarrow>
     (\<exists>body hdrs. post env (base_url c) (upload_pack_path path) payload = Response 200 body hdrs)"
  by (auto simp: fetch_def Let_def split: http_outcome.splits if_splits)

text \<open>
  Claim C2 (for both operations an empty body is a failure with the error
  \<^verbatim>\<open>Empty response\<close>). On a response with status 200 and an empty body,
  \<^verbatim>\<open>ls_refs\<close> returns that failure, while \<^verbatim>\<open>fetch\<close>, which has no such check,
  returns success with an empty error string.
\<close>

theorem fetch_empty_body_counts_as_success:
  "fetch \<lparr>base_url = ''http://localhost:8080'', timeout = 60\<rparr>
         \<lparr>post = (\<lambda>url path body. Response 200 [] Map.empty), clock_start = 0, clock_end = 1\<rparr>
         ''github.com/golang/go'' dummy_ref
     = Inr (True,
            elapsed_ms \<lparr>post = (\<lambda>url path body. Response 200 [] Map.empty),
                        clock_start = 0, clock_end = 1\<rparr>,
            '''', '''')
   \<and> ls_refs \<lparr>base_url = ''http://localhost:8080'', timeout = 60\<rparr>
         \<lparr>post = (\<lambda>url path body. Response 200 [] Map.empty), clock_start = 0, clock_end = 1\<rparr>
         ''github.com/golang/go''
     = (False,
        elapsed_ms \<lparr>post = (\<lambda>url path body. Response 200 [] Map.empty),
                    clock_start = 0, clock_end = 1\<rparr>,
        '''', ''Empty response'')"
  by (simp add: fetch_def ls_refs_def fetch_payload_dummy Let_def headers_get_def)



section \<open>Rounding to binary64\<close>

text \<open>
  \<open>float_exponent\<close> is the binary exponent, so \<open>float_round\<close> moves a positive
  \<open>x\<close> by at most half a unit in the last place, that is by at most \<open>x / 2^53\<close>;
  it keeps integers below \<open>2^53\<close> and every other number within half a unit of
  which lies a multiple of the unit.
\<close>

lemma bit_length_0: "bit_length 0 = 0"
  by (simp add: bit_length.simps)

lemma bit_length_pos: "0 < n \<Longrightarrow> bit_length n = Suc (bit_length (n div 2))"
  by (subst bit_length.simps) simp

lemma bit_length_upper: "n < 2 ^ bit_length n"
proof (induction n rule: bit_length.induct)
  case (1 n)
  show ?case
  proof (cases "n = 0")
    case True
    then show ?thesis by (simp add: bit_length_0)
  next
    case False
    with "1.IH" have "n div 2 < 2 ^ bit_length (n div 2)" by simp
    then have "n < 2 * 2 ^ bit_length (n div 2)" by linarith
    with False show ?thesis by (simp add: bit_length_pos)
  qed
qed

lemma bit_length_lower: "0 < n \<Longrightarrow> 2 ^ (bit_length n - 1) \<le> n"
proof (induction n rule: bit_length.induct)
  case (1 n)
  show ?case
  proof (cases "n div 2 = 0")
    case True
    with "1.prems" have "n = 1" by linarith
    then show ?thesis by (simp add: bit_length_pos bit_length_0)
  next
    case False
    then have pos: "0 < n div 2" by simp
    with "1.IH" "1.prems" have "2 ^ (bit_length (n div 2) - 1) \<le> n div 2" by simp
    then have "2 * 2 ^ (bit_length (n div 2) - 1) \<le> n" by linarith
    moreover have "bit_length (n div 2) = Suc (bit_length (n div 2) - 1)"
      using pos by (simp add: bit_length_pos)
    ultimately have "2 ^ bit_length (n div 2) \<le> n"
      by (metis power_Suc)
    with "1.prems" show ?thesis by (simp add: bit_length_pos)
  qed
qed

lemma bit_length_ge1: "0 < n \<Longrightarrow> 1 \<le> bit_length n"
  by (simp add: bit_length_pos)

lemma float_exponent_bounds:
  assumes "0 < x"
  shows "2 powi float_exponent x \<le> x \<and> x < 2 powi (float_exponent x + 1)"
proof (cases "1 \<le> x")
  case True
  define n where "n = nat \<lfloor>x\<rfloor>"
  define b where "b = bit_length n"
  have n_pos: "0 < n" using True by (simp add: n_def)
  have n_le: "real n \<le> x" using True by (simp add: n_def)
  have x_lt: "x < real n + 1" using True unfolding n_def by (simp; linarith)
  have b1: "1 \<le> b" unfolding b_def using n_pos by (rule bit_length_ge1)
  have e: "float_exponent x = int b - 1"
    using True by (simp add: float_exponent_def n_def b_def)
  have lo: "(2::nat) ^ (b - 1) \<le> n" unfolding b_def using n_pos by (rule bit_length_lower)
  have hi: "n < (2::nat) ^ b" unfolding b_def by (rule bit_length_upper)
  have "(2::real) ^ (b - 1) \<le> real n"
    using lo by (metis of_nat_le_iff of_nat_numeral of_nat_power)
  then have 1: "(2::real) ^ (b - 1) \<le> x" using n_le by linarith
  have "real n + 1 \<le> (2::real) ^ b"
    using hi by (metis Suc_leI of_nat_Suc of_nat_le_iff of_nat_numeral of_nat_power add.commute)
  then have 2: "x < (2::real) ^ b" using x_lt by linarith
  have p1: "(2::real) powi (int b - 1) = 2 ^ (b - 1)"
    using b1 by (simp add: power_int_def nat_diff_distrib')
  have p2: "(2::real) powi (int b - 1 + 1) = 2 ^ b"
    by (simp add: power_int_def)
  show ?thesis unfolding e p1 p2 using 1 2 by simp
next
  case False
  define y where "y = 1 / x"
  define m where "m = nat (\<lceil>y\<rceil> - 1)"
  define b where "b = bit_length m"
  have y1: "1 < y" using False assms by (simp add: y_def)
  have c2: "2 \<le> \<lceil>y\<rceil>" using y1 by linarith
  have m_pos: "0 < m" using c2 by (simp add: m_def)
  have m_lt: "real m < y" unfolding m_def using c2 by (simp; linarith)
  have y_le: "y \<le> real m + 1" unfolding m_def using c2 by (simp; linarith)
  have b1: "1 \<le> b" unfolding b_def using m_pos by (rule bit_length_ge1)
  have e: "float_exponent x = - int b"
    using False by (simp add: float_exponent_def m_def b_def y_def)
  have lo: "(2::nat) ^ (b - 1) \<le> m" unfolding b_def using m_pos by (rule bit_length_lower)
  have hi: "m < (2::nat) ^ b" unfolding b_def by (rule bit_length_upper)
  have "(2::real) ^ (b - 1) \<le> real m"
    using lo by (metis of_nat_le_iff of_nat_numeral of_nat_power)
  then have 1: "(2::real) ^ (b - 1) < y" using m_lt by linarith
  have "real m + 1 \<le> (2::real) ^ b"
    using hi by (metis Suc_leI of_nat_Suc of_nat_le_iff of_nat_numeral of_nat_power add.commute)
  then have 2: "y \<le> (2::real) ^ b" using y_le by linarith
  have x_eq: "x = 1 / y" using assms by (simp add: y_def)
  have y_pos: "0 < y" using y1 by linarith
  have p1: "(2::real) powi (- int b) = 1 / 2 ^ b"
    by (simp add: power_int_def field_simps)
  have "(2::real) powi (- int b + 1) = 2 powi (- int (b - 1))"
    using b1 by (simp add: of_nat_diff)
  also have "\<dots> = 1 / 2 ^ (b - 1)"
    by (simp add: power_int_minus inverse_eq_divide)
  finally have p2: "(2::real) powi (- int b + 1) = 1 / 2 ^ (b - 1)" .
  have "1 / 2 ^ b \<le> 1 / y" using 2 y_pos by (simp add: frac_le)
  then have 3: "1 / 2 ^ b \<le> x" by (simp add: x_eq)
  have "1 / y < 1 / 2 ^ (b - 1)" using 1 by (simp add: frac_less2)
  then have 4: "x < 1 / 2 ^ (b - 1)" by (simp add: x_eq)
  show ?thesis unfolding e p1 p2 using 3 4 by simp
qed

lemma ulp_powi: "ulp e = 2 powi (e - 52)"
  by (simp add: ulp_def power_int_def inverse_eq_divide power_one_over)

lemma ulp_pos: "0 < ulp e"
  by (simp add: ulp_def)

lemma ulp_eq_div: "ulp e = 2 powi e / 2 ^ 52"
  by (simp add: ulp_powi power_int_diff)

lemma round_half_even_error: "\<bar>of_int (round_half_even y) - y\<bar> \<le> 1 / 2"
  unfolding round_half_even_def Let_def by (auto; linarith)

lemma round_half_even_near: "\<bar>y - of_int k\<bar> < 1 / 2 \<Longrightarrow> round_half_even y = k"
proof -
  assume a: "\<bar>y - of_int k\<bar> < 1 / 2"
  have "\<bar>of_int (round_half_even y) - y\<bar> \<le> 1 / 2" by (rule round_half_even_error)
  with a have "\<bar>(of_int (round_half_even y) :: real) - of_int k\<bar> < 1" by linarith
  then have "\<bar>round_half_even y - k\<bar> < 1"
    by (metis of_int_1 of_int_abs of_int_diff of_int_less_iff)
  then show ?thesis by linarith
qed

lemma round_half_even_of_int: "round_half_even (of_int k) = k"
  by (rule round_half_even_near) simp

lemma round_half_even_ge: "of_int k \<le> y \<Longrightarrow> k \<le> round_half_even y"
proof -
  assume "of_int k \<le> y"
  then have "k \<le> \<lfloor>y\<rfloor>" by (simp add: le_floor_iff)
  moreover have "\<lfloor>y\<rfloor> \<le> round_half_even y"
    by (simp add: round_half_even_def Let_def)
  ultimately show ?thesis by linarith
qed

lemma abs_scale:
  fixes a x u :: real
  assumes "0 < u"
  shows "\<bar>a * u - x\<bar> = \<bar>a - x / u\<bar> * u"
proof -
  have "a * u - x = (a - x / u) * u" using assms by (simp add: field_simps)
  then have "\<bar>a * u - x\<bar> = \<bar>a - x / u\<bar> * \<bar>u\<bar>" by (simp add: abs_mult)
  then show ?thesis using assms by simp
qed

lemma float_round_pos:
  "0 < x \<Longrightarrow>
     float_round x =
       of_int (round_half_even (x / ulp (float_exponent x))) * ulp (float_exponent x)"
  by (simp add: float_round_def Let_def)


lemma float_round_error:
  assumes "0 < x"
  shows "\<bar>float_round x - x\<bar> \<le> x / 2 ^ 53"
proof -
  define u where "u = ulp (float_exponent x)"
  have u_pos: "0 < u" unfolding u_def by (rule ulp_pos)
  have "2 powi float_exponent x \<le> x" using float_exponent_bounds[OF assms] by simp
  then have u_le: "u \<le> x / 2 ^ 52" by (simp add: u_def ulp_eq_div divide_right_mono)
  have "\<bar>of_int (round_half_even (x / u)) - x / u\<bar> \<le> 1 / 2"
    by (rule round_half_even_error)
  then have "\<bar>of_int (round_half_even (x / u)) - x / u\<bar> * u \<le> 1 / 2 * u"
    using u_pos by (simp add: mult_right_mono)
  moreover have "\<bar>of_int (round_half_even (x / u)) - x / u\<bar> * u
      = \<bar>of_int (round_half_even (x / u)) * u - x\<bar>"
    using u_pos by (simp add: abs_scale)
  ultimately have "\<bar>of_int (round_half_even (x / u)) * u - x\<bar> \<le> u / 2" by simp
  then have "\<bar>float_round x - x\<bar> \<le> u / 2"
    using assms by (simp add: float_round_pos u_def)
  also have "u / 2 \<le> x / 2 ^ 53" using u_le by simp
  finally show ?thesis .
qed

lemma float_round_pos_gt0:
  assumes "0 < x"
  shows "0 < float_round x"
proof -
  have "\<bar>float_round x - x\<bar> \<le> x / 2 ^ 53" using assms by (rule float_round_error)
  moreover have "x / 2 ^ 53 < x" using assms by (simp add: field_simps)
  ultimately show ?thesis by linarith
qed


lemma float_round_grid:
  assumes "0 < x" and "\<bar>of_int k * ulp (float_exponent x) - x\<bar> < ulp (float_exponent x) / 2"
  shows "float_round x = of_int k * ulp (float_exponent x)"
proof -
  define u where "u = ulp (float_exponent x)"
  have u_pos: "0 < u" unfolding u_def by (rule ulp_pos)
  have "\<bar>of_int k - x / u\<bar> * u < (1 / 2) * u"
    using assms(2) u_pos unfolding u_def by (simp add: abs_scale)
  then have "\<bar>of_int k - x / u\<bar> < 1 / 2"
    using u_pos by (simp only: mult_less_cancel_right_pos)
  then have "\<bar>x / u - of_int k\<bar> < 1 / 2"
    by (simp add: abs_minus_commute)
  then have "round_half_even (x / u) = k" by (rule round_half_even_near)
  then show ?thesis using assms(1) by (simp add: float_round_pos u_def)
qed

lemma float_exponent_le_52:
  assumes "0 < x" and "x < 2 ^ 53"
  shows "float_exponent x \<le> 52"
proof -
  have "2 powi float_exponent x \<le> x" using float_exponent_bounds[OF assms(1)] by simp
  with assms(2) have "(2::real) powi float_exponent x < 2 powi 53" by simp
  then have "float_exponent x < 53"
    by (rule power_int_le_imp_less_exp[rotated]) simp_all
  then show ?thesis by simp
qed

lemma float_round_integer:
  assumes "0 < x" and "x < 2 ^ 53" and "x = of_int k"
  shows "float_round x = x"
proof -
  define j where "j = nat (52 - float_exponent x)"
  have "float_exponent x \<le> 52" using assms(1,2) by (rule float_exponent_le_52)
  then have u: "ulp (float_exponent x) = 1 / 2 ^ j"
    by (auto simp: ulp_def j_def)
  have "of_int (k * 2 ^ j) * ulp (float_exponent x) = x"
    unfolding u by (simp add: assms(3))
  then have "\<bar>of_int (k * 2 ^ j) * ulp (float_exponent x) - x\<bar> < ulp (float_exponent x) / 2"
    using ulp_pos[of "float_exponent x"] by simp
  with assms(1) have "float_round x = of_int (k * 2 ^ j) * ulp (float_exponent x)"
    by (rule float_round_grid)
  also have "\<dots> = x" unfolding u by (simp add: assms(3))
  finally show ?thesis .
qed

lemma float_of_int_exact: "0 \<le> k \<Longrightarrow> k < 2 ^ 53 \<Longrightarrow> float_of_int k = of_int k"
proof (cases "k = 0")
  case True
  then show ?thesis by (simp add: float_of_int_def float_round_def)
next
  case False
  assume "0 \<le> k" "k < 2 ^ 53"
  with False have pos: "0 < (of_int k :: real)" and "(of_int k :: real) < of_int (2 ^ 53)"
    by (simp_all only: of_int_less_iff of_int_0_less_iff)
  then have "(of_int k :: real) < 2 ^ 53" by simp
  with pos show ?thesis unfolding float_of_int_def by (rule float_round_integer) simp
qed

lemma float_round_upper:
  assumes "0 < x"
  shows "float_round x \<le> x + x / 2 ^ 53"
  using float_round_error[OF assms] by linarith

lemma float_round_lower:
  assumes "0 < x"
  shows "x - x / 2 ^ 53 \<le> float_round x"
  using float_round_error[OF assms] by linarith

lemma float_round_eval:
  assumes "0 < x" and "float_exponent x = e" and "ulp e = u" and "round_half_even (x / u) = m"
  shows "float_round x = of_int m * u"
  using assms by (simp add: float_round_pos)

lemma float_0_95: "lit_0_95 = 8556839292003942 / 2 ^ 53"
proof -
  have "float_round (95 / 100) = of_int 8556839292003942 * (1 / 2 ^ 53)"
  proof (rule float_round_eval)
    show "float_exponent (95 / 100) = - 1"
      by (simp add: float_exponent_def bit_length.simps)
    show "ulp (- 1) = 1 / 2 ^ 53" by (simp add: ulp_def)
    show "round_half_even (95 / 100 / (1 / 2 ^ 53)) = 8556839292003942"
      by (simp add: round_half_even_def)
  qed simp
  then show ?thesis by (simp add: lit_0_95_def)
qed

lemma float_0_99: "lit_0_99 = 8917127262193582 / 2 ^ 53"
proof -
  have "float_round (99 / 100) = of_int 8917127262193582 * (1 / 2 ^ 53)"
  proof (rule float_round_eval)
    show "float_exponent (99 / 100) = - 1"
      by (simp add: float_exponent_def bit_length.simps)
    show "ulp (- 1) = 1 / 2 ^ 53" by (simp add: ulp_def)
    show "round_half_even (99 / 100 / (1 / 2 ^ 53)) = 8917127262193582"
      by (simp add: round_half_even_def)
  qed simp
  then show ?thesis by (simp add: lit_0_99_def)
qed

lemma float_0_8: "lit_0_8 = 7205759403792794 / 2 ^ 53"
proof -
  have "float_round (8 / 10) = of_int 7205759403792794 * (1 / 2 ^ 53)"
  proof (rule float_round_eval)
    show "float_exponent (8 / 10) = - 1"
      by (simp add: float_exponent_def bit_length.simps)
    show "ulp (- 1) = 1 / 2 ^ 53" by (simp add: ulp_def)
    show "round_half_even (8 / 10 / (1 / 2 ^ 53)) = 7205759403792794"
      by (simp add: round_half_even_def)
  qed simp
  then show ?thesis by (simp add: lit_0_8_def)
qed

lemma percentile_index_in_range:
  assumes "0 < n" and "0 < q" and "q \<le> 99 / 100"
  shows "0 \<le> percentile_index n q \<and> percentile_index n q < int n"
proof -
  define c :: real where "c = 1 + 1 / 2 ^ 53"
  define fn where "fn = float_of_int (int n)"
  define y where "y = fn * q"
  define p where "p = float_round y"
  have n_pos: "0 < real n" using assms(1) by simp
  have fn_eq: "fn = float_round (real n)" by (simp add: fn_def float_of_int_def)
  have fn_pos: "0 < fn" unfolding fn_eq using n_pos by (rule float_round_pos_gt0)
  have "fn \<le> real n + real n / 2 ^ 53" unfolding fn_eq using n_pos by (rule float_round_upper)
  then have fn_le: "fn \<le> real n * c" by (simp add: c_def algebra_simps)
  have y_pos: "0 < y" unfolding y_def using fn_pos assms(2) by simp
  have "fn * q \<le> (real n * c) * (99 / 100)"
    using fn_le assms(2,3) fn_pos by (intro mult_mono) simp_all
  then have y_le: "y \<le> real n * c * (99 / 100)" by (simp add: y_def)
  have p_pos: "0 < p" unfolding p_def using y_pos by (rule float_round_pos_gt0)
  have "p \<le> y + y / 2 ^ 53" unfolding p_def using y_pos by (rule float_round_upper)
  then have "p \<le> y * c" by (simp add: c_def algebra_simps)
  also have "y * c \<le> (real n * c * (99 / 100)) * c"
    using y_le by (rule mult_right_mono) (simp add: c_def)
  also have "\<dots> = real n * (c * (99 / 100) * c)" by simp
  also have "\<dots> < real n * 1"
    using n_pos by (intro mult_strict_left_mono) (simp_all add: c_def)
  finally have p_lt: "p < real n" by simp
  have idx: "percentile_index n q = \<lfloor>p\<rfloor>"
    using p_pos by (simp add: percentile_index_def float_mul_def int_of_float_def p_def y_def fn_def)
  have "0 \<le> \<lfloor>p\<rfloor>" using p_pos by simp
  moreover have "\<lfloor>p\<rfloor> < int n" using p_lt by (simp add: floor_less_iff)
  ultimately show ?thesis by (simp add: idx)
qed

lemma percentile_index_exact:
  fixes n c :: nat and q :: real
  assumes n: "0 < n" "n < 2 ^ 45"
    and c: "c \<le> 99"
    and q_lo: "8 / 10 \<le> q"
    and q_le: "q \<le> real c / 100"
    and q_ge: "real c / 100 - q \<le> 8 / (10 * 2 ^ 54)"
  shows "percentile_index n q = int (c * n div 100)"
proof -
  define x where "x = real n * q"
  define r where "r = float_round x"
  define Q where "Q = c * n div 100"
  define R where "R = c * n mod 100"
  define d where "d = real n * (real c / 100 - q)"
  have n_pos: "0 < real n" using n(1) by simp
  have "real n < real (2 ^ 45)" using n(2) by (simp only: of_nat_less_iff)
  then have n_lt: "real n < 2 ^ 45" by simp
  have "int n < 2 ^ 53" using n(2) by (simp add: order_less_trans[where y = "2 ^ 45"])
  then have fn: "float_of_int (int n) = real n"
    using float_of_int_exact[of "int n"] by simp
  have x_pos: "0 < x" unfolding x_def using n_pos q_lo by simp
  have q_le1: "q \<le> 99 / 100" using q_le c by simp
  have x_le: "x \<le> real n" unfolding x_def using n_pos q_le1 by (simp add: mult_le_cancel_left1)
  have x_ge: "real n * (8 / 10) \<le> x" unfolding x_def using n_pos q_lo by simp
  have r_pos: "0 < r" unfolding r_def using x_pos by (rule float_round_pos_gt0)
  have idx: "percentile_index n q = \<lfloor>r\<rfloor>"
    using r_pos by (simp add: percentile_index_def float_mul_def int_of_float_def fn r_def x_def)
  have "real (c * n) = real (100 * Q + R)"
    unfolding Q_def R_def by (simp only: mult_div_mod_eq)
  then have cn: "real c * real n = 100 * real Q + real R" by simp
  have d_ge: "0 \<le> d" unfolding d_def using n_pos q_le by simp
  have "d \<le> real n * (8 / (10 * 2 ^ 54))"
    unfolding d_def using n_pos q_ge by (simp only: mult_le_cancel_left_pos)
  then have d_le: "d \<le> real n * (8 / 10) / 2 ^ 54" by simp
  have x_eq: "x = real Q + real R / 100 - d"
  proof -
    have "x = (real c * real n) / 100 - d" by (simp add: x_def d_def algebra_simps)
    then show ?thesis unfolding cn by simp
  qed
  have "\<lfloor>r\<rfloor> = int Q"
  proof (cases "R = 0")
    case True
    then have xQ: "x = real Q - d" using x_eq by simp
    define u where "u = ulp (float_exponent x)"
    define j where "j = nat (52 - float_exponent x)"
    have x53: "x < 2 ^ 53" using x_le n_lt by (simp add: order_less_trans[where y = "2 ^ 45"])
    then have "float_exponent x \<le> 52" using x_pos by (intro float_exponent_le_52)
    then have u: "u = 1 / 2 ^ j" by (auto simp: u_def ulp_def j_def)
    have "x < 2 powi (float_exponent x + 1)" using float_exponent_bounds[OF x_pos] by simp
    also have "\<dots> = 2 * 2 powi float_exponent x" by (simp add: power_int_add)
    finally have "x / 2 ^ 54 < 2 powi float_exponent x / 2 ^ 53" by (simp add: field_simps)
    also have "\<dots> = u / 2" by (simp add: u_def ulp_eq_div)
    finally have half: "x / 2 ^ 54 < u / 2" .
    have "d \<le> x / 2 ^ 54" using d_le x_ge by (simp add: divide_right_mono order_trans)
    with half have "d < u / 2" by linarith
    moreover have grid: "of_int (int Q * 2 ^ j) * u = real Q" by (simp add: u)
    moreover have "\<bar>real Q - x\<bar> = d" using d_ge xQ by simp
    ultimately have "\<bar>of_int (int Q * 2 ^ j) * u - x\<bar> < u / 2"
      by (simp only:)
    then have "float_round x = of_int (int Q * 2 ^ j) * u"
      unfolding u_def using x_pos by (intro float_round_grid)
    then have "r = real Q" by (simp add: r_def u)
    then show ?thesis by simp
  next
    case False
    then have R1: "1 \<le> real R" by simp
    have "R < 100" unfolding R_def by simp
    then have R99: "real R \<le> 99" by simp
    have err: "\<bar>r - x\<bar> \<le> x / 2 ^ 53" unfolding r_def using x_pos by (rule float_round_error)
    have "x / 2 ^ 53 \<le> real n / 2 ^ 53" using x_le by (simp add: divide_right_mono)
    also have "\<dots> < 2 ^ 45 / 2 ^ 53" using n_lt by (simp add: divide_strict_right_mono)
    finally have e1: "x / 2 ^ 53 < 1 / 256" by simp
    have "real n * (8 / 10) / 2 ^ 54 < 2 ^ 45 * (8 / 10) / 2 ^ 54"
      using n_lt by (simp add: divide_strict_right_mono)
    with d_le have e2: "d < 1 / 512" by simp
    have lo: "real Q \<le> r" using err e1 e2 x_eq R1 by linarith
    have hi: "r < real Q + 1" using err e1 d_ge x_eq R99 by linarith
    show ?thesis using lo hi by (simp add: floor_unique)
  qed
  then show ?thesis by (simp add: idx Q_def)
qed

lemma percentile_index_0_95:
  "0 < n \<Longrightarrow> n < 2 ^ 45 \<Longrightarrow>
     percentile_index n lit_0_95 = int (95 * n div 100)"
  unfolding float_0_95 by (rule percentile_index_exact) simp_all

lemma percentile_index_0_99:
  "0 < n \<Longrightarrow> n < 2 ^ 45 \<Longrightarrow>
     percentile_index n lit_0_99 = int (99 * n div 100)"
  unfolding float_0_99 by (rule percentile_index_exact) simp_all

section \<open>Properties of the statistics\<close>

lemma bind_Inr [simp]: "bind (Inr x) f = f x"
  by (simp add: bind_def)

lemma bind_Inl [simp]: "bind (Inl e) f = Inl e"
  by (simp add: bind_def)

lemma bind_eq_Inr_iff: "bind m f = Inr y \<longleftrightarrow> (\<exists>x. m = Inr x \<and> f x = Inr y)"
  by (cases m) simp_all

lemma list_index_in_range:
  "0 \<le> i \<Longrightarrow> i < int (length xs) \<Longrightarrow> list_index xs i = Inr (xs ! nat i)"
  by (simp add: list_index_def Let_def)

lemma percentile_in_bounds:
  assumes "durations \<noteq> []" and "0 < q" and "q \<le> 99 / 100"
  shows "percentile durations q =
           Inr (sort durations ! nat (percentile_index (length durations) q))"
proof -
  have "0 < length durations" using assms(1) by simp
  then have "0 \<le> percentile_index (length durations) q
      \<and> percentile_index (length durations) q < int (length durations)"
    using assms(2,3) by (rule percentile_index_in_range)
  then show ?thesis by (simp add: percentile_def list_index_in_range)
qed

lemma float_0_95_range: "0 < lit_0_95 \<and> lit_0_95 \<le> 99 / 100"
  unfolding float_0_95 by simp

lemma float_0_99_range: "0 < lit_0_99 \<and> lit_0_99 \<le> 99 / 100"
  unfolding float_0_99 by simp

lemma py_min_nonempty: "xs \<noteq> [] \<Longrightarrow> py_min xs = Inr (foldl min (hd xs) (tl xs))"
  by (cases xs) simp_all

lemma py_max_nonempty: "xs \<noteq> [] \<Longrightarrow> py_max xs = Inr (foldl max (hd xs) (tl xs))"
  by (cases xs) simp_all

lemma mean_nonempty:
  "xs \<noteq> [] \<Longrightarrow> mean xs = Inr (float_round (sum_list xs / of_nat (length xs)))"
  by (simp add: mean_def)

lemma sort_eq_Nil_iff: "sort xs = [] \<longleftrightarrow> xs = []"
  by (metis length_0_conv length_sort)

lemma median_nonempty: "xs \<noteq> [] \<Longrightarrow> \<exists>v. median xs = Inr v"
  by (simp add: median_def Let_def float_div_def sort_eq_Nil_iff)

lemma duration_summary_empty:
  "duration_summary [] =
     Inr \<lparr>min_ms = 0, max_ms = 0, mean_ms = 0, median_ms = 0, p95 = 0, p99 = 0\<rparr>"
  by (simp add: duration_summary_def)

lemma duration_summary_nonempty:
  assumes "durations \<noteq> []"
  shows "\<exists>v_median.
     median durations = Inr v_median \<and>
     duration_summary durations =
       Inr \<lparr>min_ms = foldl min (hd durations) (tl durations),
            max_ms = foldl max (hd durations) (tl durations),
            mean_ms = float_round (sum_list durations / of_nat (length durations)),
            median_ms = v_median,
            p95 = sort durations ! nat (percentile_index (length durations) (lit_0_95)),
            p99 = sort durations ! nat (percentile_index (length durations) (lit_0_99))\<rparr>"
proof -
  obtain v where v: "median durations = Inr v" using median_nonempty[OF assms] by blast
  have p95: "percentile durations (lit_0_95) =
      Inr (sort durations ! nat (percentile_index (length durations) (lit_0_95)))"
    using assms float_0_95_range by (intro percentile_in_bounds) simp_all
  have p99: "percentile durations (lit_0_99) =
      Inr (sort durations ! nat (percentile_index (length durations) (lit_0_99)))"
    using assms float_0_99_range by (intro percentile_in_bounds) simp_all
  show ?thesis
    using assms v
    by (simp add: duration_summary_def py_min_nonempty py_max_nonempty mean_nonempty p95 p99)
qed

lemma duration_summary_total: "\<exists>ds. duration_summary durations = Inr ds"
proof (cases "durations = []")
  case True
  then show ?thesis by (simp add: duration_summary_empty)
next
  case False
  then show ?thesis using duration_summary_nonempty by blast
qed


lemma keys_bump: "fst ` set (bump d k) = insert k (fst ` set d)"
  by (induction d k rule: bump.induct) auto

lemma map_of_bump:
  "map_of (bump d k) k' =
     (if k' = k then Some (case map_of d k of None \<Rightarrow> 1 | Some n \<Rightarrow> n + 1)
      else map_of d k')"
  by (induction d k rule: bump.induct) auto

lemma distinct_keys_bump: "distinct (map fst d) \<Longrightarrow> distinct (map fst (bump d k))"
  by (induction d k rule: bump.induct) (auto simp: keys_bump)









lemma compute_statistics_empty:
  "results self = [] \<Longrightarrow> compute_statistics self total_duration = Inl ZeroDivisionError"
  by (simp add: compute_statistics_def int_truediv_def)

lemma compute_statistics_zero_duration:
  "compute_statistics self 0 = Inl ZeroDivisionError"
  by (simp add: compute_statistics_def Let_def int_truediv_def float_div_def bind_def)

lemma compute_statistics_Inr:
  assumes "results self \<noteq> []" and "total_duration \<noteq> 0"
  shows "\<exists>ds. duration_summary (map duration_ms (filter success (results self))) = Inr ds \<and>
     compute_statistics self total_duration =
       Inr \<lparr>total_requests = length (results self),
            successful = length (filter success (results self)),
            failed = length (filter (\<lambda>r. \<not> success r) (results self)),
            success_rate =
              float_mul (float_round (of_int (int (length (filter success (results self))))
                                       / of_int (int (length (results self))))) 100,
            total_duration_sec = total_duration,
            requests_per_sec =
              float_round (float_of_int (int (length (results self))) / total_duration),
            duration_ms_summary = ds,
            server_distribution = server_counts (results self),
            repo_distribution = repo_requests (results self),
            errors = error_counts (filter (\<lambda>r. \<not> success r) (results self))\<rparr>"
proof -
  obtain ds where "duration_summary (map duration_ms (filter success (results self))) = Inr ds"
    using duration_summary_total by blast
  then show ?thesis
    using assms by (simp add: compute_statistics_def Let_def int_truediv_def float_div_def)
qed

lemma compute_statistics_Inr_iff:
  "(\<exists>st. compute_statistics self total_duration = Inr st)
     \<longleftrightarrow> results self \<noteq> [] \<and> total_duration \<noteq> 0"
proof
  assume "\<exists>st. compute_statistics self total_duration = Inr st"
  then show "results self \<noteq> [] \<and> total_duration \<noteq> 0"
    using compute_statistics_empty[of self total_duration] compute_statistics_zero_duration[of self]
    by auto
next
  assume "results self \<noteq> [] \<and> total_duration \<noteq> 0"
  then show "\<exists>st. compute_statistics self total_duration = Inr st"
    using compute_statistics_Inr[of self total_duration] by blast
qed

section \<open>Properties of workers and of the run\<close>

lemma fetch_dummy_ok: "\<exists>r. fetch c env path dummy_ref = Inr r"
  by (simp add: fetch_def fetch_payload_dummy del: split_paired_Ex)

lemma request_ok:
  assumes "repositories self \<noteq> []"
  shows "\<exists>r. request self c env = Inr r"
proof -
  obtain r where "fetch c (call env)
      (repositories self ! (pick env mod length (repositories self))) dummy_ref = Inr r"
    using fetch_dummy_ok by blast
  then show ?thesis
    using assms by (simp add: request_def random_choice_def split: prod.splits)
qed

lemma request_no_repositories:
  "repositories self = [] \<Longrightarrow> request self c env = Inl IndexError"
  by (simp add: request_def random_choice_def)

lemma worker_loop_ok:
  assumes "repositories self \<noteq> []"
  shows "\<exists>rs. worker_loop self c env todo acc = Inr rs \<and> length rs = length acc + length todo"
proof (induction todo arbitrary: acc)
  case Nil
  show ?case by simp
next
  case (Cons i todo)
  obtain r where r: "request self c (env i) = Inr r"
    using request_ok[OF assms] by blast
  obtain rs where "worker_loop self c env todo (acc @ [r]) = Inr rs"
    and "length rs = length (acc @ [r]) + length todo"
    using Cons.IH by blast
  then show ?case by (simp add: r)
qed

lemma worker_task_ok:
  assumes "repositories self \<noteq> []"
  shows "\<exists>rs. worker_task self w env = Inr rs \<and> length rs = nat (requests_per_worker self)"
  using worker_loop_ok[OF assms, of _ env "[0..<nat (requests_per_worker self)]" "[]"]
  by (simp add: worker_task_def)

lemma worker_task_no_requests:
  "requests_per_worker self \<le> 0 \<Longrightarrow> worker_task self w env = Inr []"
  by (simp add: worker_task_def)

lemma worker_task_no_repositories:
  "repositories self = [] \<Longrightarrow> 0 < requests_per_worker self \<Longrightarrow>
     worker_task self w env = Inl IndexError"
proof -
  assume a: "repositories self = []" and b: "0 < requests_per_worker self"
  from b have "[0..<nat (requests_per_worker self)]
      = 0 # [Suc 0..<nat (requests_per_worker self)]"
    by (simp add: upt_conv_Cons)
  then show ?thesis
    by (simp add: worker_task_def request_no_repositories[OF a])
qed

lemma mset_as_completed: "mset (as_completed sched pending) = mset pending"
proof (induction sched pending rule: as_completed.induct)
  case (1 sched pending)
  show ?case
  proof (cases "pending = []")
    case True
    then show ?thesis by (subst as_completed.simps) simp
  next
    case False
    define k where "k = (case sched of [] \<Rightarrow> 0 | s # x \<Rightarrow> s mod length pending)"
    have k_lt: "k < length pending"
      using False by (cases sched) (simp_all add: k_def)
    have IH: "mset (as_completed (tl sched) (take k pending @ drop (Suc k) pending))
        = mset (take k pending @ drop (Suc k) pending)"
      using "1.IH"[OF False k_def] .
    have "as_completed sched pending
        = pending ! k # as_completed (tl sched) (take k pending @ drop (Suc k) pending)"
      using False by (subst as_completed.simps) (simp add: k_def Let_def)
    then have "mset (as_completed sched pending)
        = {#pending ! k#} + mset (take k pending @ drop (Suc k) pending)"
      by (simp add: IH)
    also have "\<dots> = mset (take k pending @ pending ! k # drop (Suc k) pending)"
      by simp
    also have "\<dots> = mset pending"
      using id_take_nth_drop[OF k_lt] by simp
    finally show ?thesis .
  qed
qed

lemma collect_ok:
  assumes "\<forall>f \<in> set futures. \<exists>rs. f = Inr rs \<and> length rs = k"
  shows "\<exists>extra. collect self futures = (self\<lparr>results := results self @ extra\<rparr>, Inr ())
           \<and> length extra = k * length futures"
  using assms
proof (induction futures arbitrary: self)
  case Nil
  show ?case by simp
next
  case (Cons f futures)
  then obtain rs where f: "f = Inr rs" and len: "length rs = k" by auto
  from Cons.prems have "\<forall>f \<in> set futures. \<exists>rs. f = Inr rs \<and> length rs = k" by simp
  then obtain extra where
    c: "collect (self\<lparr>results := results self @ rs\<rparr>) futures
          = (self\<lparr>results := results self @ rs\<rparr>\<lparr>results :=
               results (self\<lparr>results := results self @ rs\<rparr>) @ extra\<rparr>, Inr ())"
    and e: "length extra = k * length futures"
    using Cons.IH by blast
  have "collect self (f # futures) = (self\<lparr>results := results self @ (rs @ extra)\<rparr>, Inr ())"
    by (simp add: f c)
  moreover have "length (rs @ extra) = k * length (f # futures)"
    by (simp add: len e)
  ultimately show ?case by blast
qed

lemma run_collect:
  assumes "0 < num_workers self" and "repositories self \<noteq> [] \<or> requests_per_worker self \<le> 0"
  shows "\<exists>extra.
     collect self (as_completed sched
        (map (\<lambda>i. worker_task self i (wenv i)) [0..<nat (num_workers self)]))
       = (self\<lparr>results := results self @ extra\<rparr>, Inr ())
     \<and> length extra = nat (requests_per_worker self) * nat (num_workers self)"
proof -
  define futures where
    "futures = map (\<lambda>i. worker_task self i (wenv i)) [0..<nat (num_workers self)]"
  have each: "\<exists>rs. worker_task self w (wenv w) = Inr rs
      \<and> length rs = nat (requests_per_worker self)" for w
  proof (cases "repositories self \<noteq> []")
    case True
    then show ?thesis by (rule worker_task_ok)
  next
    case False
    with assms(2) have "requests_per_worker self \<le> 0" by simp
    then show ?thesis by (simp add: worker_task_no_requests)
  qed
  have m: "mset (as_completed sched futures) = mset futures" by (rule mset_as_completed)
  have "set (as_completed sched futures) = set futures" using m by (rule mset_eq_setD)
  then have all: "\<forall>f \<in> set (as_completed sched futures).
      \<exists>rs. f = Inr rs \<and> length rs = nat (requests_per_worker self)"
    using each by (auto simp: futures_def)
  have "length (as_completed sched futures) = length futures" using m by (rule mset_eq_length)
  then have len: "length (as_completed sched futures) = nat (num_workers self)"
    by (simp add: futures_def)
  show ?thesis
    using collect_ok[OF all, of self] len unfolding futures_def by simp
qed


lemma run_result:
  assumes "0 < num_workers self" and "repositories self \<noteq> [] \<or> requests_per_worker self \<le> 0"
  shows "\<exists>extra.
     length extra = nat (requests_per_worker self) * nat (num_workers self)
     \<and> run self env =
         (self\<lparr>results := results self @ extra\<rparr>,
          compute_statistics (self\<lparr>results := results self @ extra\<rparr>)
            (float_sub (end_time env) (start_time env)))"
proof -
  obtain extra where
    c: "collect self (as_completed (schedule env)
          (map (\<lambda>i. worker_task self i (worker_env env i)) [0..<nat (num_workers self)]))
        = (self\<lparr>results := results self @ extra\<rparr>, Inr ())"
    and l: "length extra = nat (requests_per_worker self) * nat (num_workers self)"
    using run_collect[OF assms] by blast
  have "run self env =
         (self\<lparr>results := results self @ extra\<rparr>,
          compute_statistics (self\<lparr>results := results self @ extra\<rparr>)
            (float_sub (end_time env) (start_time env)))"
    using assms(1) by (simp add: run_def Let_def c)
  with l show ?thesis by blast
qed







section \<open>Percentiles and the empty result list\<close>

text \<open>
  Claim C10: for every non-empty list of durations, of any length \<open>n\<close>, the two
  indices \<^verbatim>\<open>int(n * 0.95)\<close> and \<^verbatim>\<open>int(n * 0.99)\<close> that the float arithmetic
  yields lie in \<open>0 \<le> i < n\<close>, so both subscripts of the sorted list return an
  element and raise no \<^verbatim>\<open>IndexError\<close>. Below \<open>2^45\<close> elements the float
  indices are the exact \<open>\<lfloor>0.95 n\<rfloor>\<close> and \<open>\<lfloor>0.99 n\<rfloor>\<close>, which are below \<open>n\<close> as well.
\<close>

theorem percentile_indices_in_bounds:
  "durations \<noteq> [] \<longrightarrow>
     0 \<le> percentile_index (length durations) lit_0_95
   \<and> percentile_index (length durations) lit_0_95 < int (length durations)
   \<and> 0 \<le> percentile_index (length durations) lit_0_99
   \<and> percentile_index (length durations) lit_0_99 < int (length durations)
   \<and> percentile durations lit_0_95 =
       Inr (sort durations ! nat (percentile_index (length durations) lit_0_95))
   \<and> percentile durations lit_0_99 =
       Inr (sort durations ! nat (percentile_index (length durations) lit_0_99))
   \<and> (length durations < 2 ^ 45 \<longrightarrow>
        percentile_index (length durations) lit_0_95 = int (95 * length durations div 100)
      \<and> percentile_index (length durations) lit_0_99 = int (99 * length durations div 100))
   \<and> 95 * length durations div 100 < length durations
   \<and> 99 * length durations div 100 < length durations"
proof
  assume ne: "durations \<noteq> []"
  then have pos: "0 < length durations" by simp
  have r95: "0 < lit_0_95" "lit_0_95 \<le> 99 / 100" using float_0_95_range by simp_all
  have r99: "0 < lit_0_99" "lit_0_99 \<le> 99 / 100" using float_0_99_range by simp_all
  have i95: "0 \<le> percentile_index (length durations) lit_0_95
      \<and> percentile_index (length durations) lit_0_95 < int (length durations)"
    using pos r95 by (rule percentile_index_in_range)
  have i99: "0 \<le> percentile_index (length durations) lit_0_99
      \<and> percentile_index (length durations) lit_0_99 < int (length durations)"
    using pos r99 by (rule percentile_index_in_range)
  have p95: "percentile durations lit_0_95 =
       Inr (sort durations ! nat (percentile_index (length durations) lit_0_95))"
    using ne r95 by (rule percentile_in_bounds)
  have p99: "percentile durations lit_0_99 =
       Inr (sort durations ! nat (percentile_index (length durations) lit_0_99))"
    using ne r99 by (rule percentile_in_bounds)
  have ex: "length durations < 2 ^ 45 \<longrightarrow>
        percentile_index (length durations) lit_0_95 = int (95 * length durations div 100)
      \<and> percentile_index (length durations) lit_0_99 = int (99 * length durations div 100)"
    using pos percentile_index_0_95 percentile_index_0_99 by blast
  have d95: "95 * length durations div 100 < length durations" using pos by linarith
  have d99: "99 * length durations div 100 < length durations" using pos by linarith
  show "0 \<le> percentile_index (length durations) lit_0_95
   \<and> percentile_index (length durations) lit_0_95 < int (length durations)
   \<and> 0 \<le> percentile_index (length durations) lit_0_99
   \<and> percentile_index (length durations) lit_0_99 < int (length durations)
   \<and> percentile durations lit_0_95 =
       Inr (sort durations ! nat (percentile_index (length durations) lit_0_95))
   \<and> percentile durations lit_0_99 =
       Inr (sort durations ! nat (percentile_index (length durations) lit_0_99))
   \<and> (length durations < 2 ^ 45 \<longrightarrow>
        percentile_index (length durations) lit_0_95 = int (95 * length durations div 100)
      \<and> percentile_index (length durations) lit_0_99 = int (99 * length durations div 100))
   \<and> 95 * length durations div 100 < length durations
   \<and> 99 * length durations div 100 < length durations"
    using i95 i99 p95 p99 ex d95 d99 by blast
qed

text \<open>
  Claim C10 at five durations: both indices are 4 and both percentiles are the largest
  element.
\<close>

theorem percentile_indices_in_bounds_witness:
  "[30, 10, 50, 20, 40 :: real] \<noteq> []
   \<and> percentile_index 5 lit_0_95 = 4
   \<and> percentile_index 5 lit_0_99 = 4
   \<and> percentile [30, 10, 50, 20, 40] lit_0_95 = Inr 50
   \<and> percentile [30, 10, 50, 20, 40] lit_0_99 = Inr 50"
proof -
  have len: "length [30, 10, 50, 20, 40 :: real] = 5" by simp
  have s: "sort [30, 10, 50, 20, 40 :: real] ! 4 = 50" by simp
  have i: "percentile_index 5 lit_0_95 = 4 \<and> percentile_index 5 lit_0_99 = 4
      \<and> percentile [30, 10, 50, 20, 40] lit_0_95 =
          Inr (sort [30, 10, 50, 20, 40] ! nat (percentile_index 5 lit_0_95))
      \<and> percentile [30, 10, 50, 20, 40] lit_0_99 =
          Inr (sort [30, 10, 50, 20, 40] ! nat (percentile_index 5 lit_0_99))"
    using percentile_indices_in_bounds[of "[30, 10, 50, 20, 40]"] unfolding len by simp
  then have "percentile [30, 10, 50, 20, 40] lit_0_95 = Inr (sort [30, 10, 50, 20, 40] ! 4)"
    and "percentile [30, 10, 50, 20, 40] lit_0_99 = Inr (sort [30, 10, 50, 20, 40] ! 4)"
    by simp_all
  with i show ?thesis unfolding s by simp
qed

lemma duration_summary_percentiles:
  assumes "durations \<noteq> []" and "length durations < 2 ^ 45"
    and "duration_summary durations = Inr ds"
  shows "p95 ds = sort durations ! (95 * length durations div 100)
       \<and> p99 ds = sort durations ! (99 * length durations div 100)"
proof -
  have pos: "0 < length durations" using assms(1) by simp
  obtain v where "duration_summary durations =
       Inr \<lparr>min_ms = foldl min (hd durations) (tl durations),
            max_ms = foldl max (hd durations) (tl durations),
            mean_ms = float_round (sum_list durations / of_nat (length durations)),
            median_ms = v,
            p95 = sort durations ! nat (percentile_index (length durations) lit_0_95),
            p99 = sort durations ! nat (percentile_index (length durations) lit_0_99)\<rparr>"
    using duration_summary_nonempty[OF assms(1)] by blast
  with assms(3) have
    "p95 ds = sort durations ! nat (percentile_index (length durations) lit_0_95)"
    "p99 ds = sort durations ! nat (percentile_index (length durations) lit_0_99)"
    by auto
  then show ?thesis
    by (simp add: percentile_index_0_95[OF pos assms(2)] percentile_index_0_99[OF pos assms(2)])
qed

lemma duration_summary_example:
  "duration_summary [10, 20, 30, 40, 50] = Inr ds \<Longrightarrow> p95 ds = 50 \<and> p99 ds = 50"
proof -
  assume a: "duration_summary [10, 20, 30, 40, 50] = Inr ds"
  have "p95 ds = sort [10, 20, 30, 40, 50 :: real] ! (95 * length [10, 20, 30, 40, 50 :: real] div 100)
      \<and> p99 ds = sort [10, 20, 30, 40, 50 :: real] ! (99 * length [10, 20, 30, 40, 50 :: real] div 100)"
    using a by (intro duration_summary_percentiles) simp_all
  then show ?thesis by simp
qed

lemma compute_statistics_no_success:
  assumes "results self \<noteq> []" and "total_duration \<noteq> 0"
    and "filter success (results self) = []"
  shows "\<exists>st. compute_statistics self total_duration = Inr st
     \<and> duration_ms_summary st =
         \<lparr>min_ms = 0, max_ms = 0, mean_ms = 0, median_ms = 0, p95 = 0, p99 = 0\<rparr>"
  using compute_statistics_Inr[OF assms(1,2)] by (auto simp: assms(3) duration_summary_empty)

lemma compute_statistics_success_rate:
  assumes "compute_statistics self total_duration = Inr st"
  shows "int_truediv (int (successful st)) (int (total_requests st)) = Inr ratio
     \<Longrightarrow> success_rate st = float_mul ratio 100"
proof -
  assume r: "int_truediv (int (successful st)) (int (total_requests st)) = Inr ratio"
  have "results self \<noteq> []" and "total_duration \<noteq> 0"
    using assms compute_statistics_Inr_iff[of self total_duration] by blast+
  from compute_statistics_Inr[OF this] assms r show ?thesis
    by (auto simp: int_truediv_def split: if_splits)
qed

text \<open>
  Claim C1 (with no requests the success rate is 0 and no division error is raised).
  The division \<^verbatim>\<open>len(successful) / total_requests\<close> is not guarded: on an empty
  result list \<^verbatim>\<open>_compute_statistics\<close> raises \<^verbatim>\<open>ZeroDivisionError\<close>, and so does
  a whole run of one worker with a quota of zero requests.
\<close>

theorem success_rate_division_unguarded:
  "compute_statistics (self\<lparr>results := []\<rparr>) total_duration = Inl ZeroDivisionError
   \<and> snd (run (init url repos 1 0 think) env) = Inl ZeroDivisionError"
proof
  show "compute_statistics (self\<lparr>results := []\<rparr>) total_duration = Inl ZeroDivisionError"
    by (simp add: compute_statistics_empty)
next
  have 1: "0 < num_workers (init url repos 1 0 think)" by (simp add: init_def)
  have 2: "repositories (init url repos 1 0 think) \<noteq> []
      \<or> requests_per_worker (init url repos 1 0 think) \<le> 0"
    by (simp add: init_def)
  obtain extra where l: "length extra = nat (requests_per_worker (init url repos 1 0 think))
        * nat (num_workers (init url repos 1 0 think))"
    and r: "run (init url repos 1 0 think) env =
         ((init url repos 1 0 think)\<lparr>results := results (init url repos 1 0 think) @ extra\<rparr>,
          compute_statistics
            ((init url repos 1 0 think)\<lparr>results := results (init url repos 1 0 think) @ extra\<rparr>)
            (float_sub (end_time env) (start_time env)))"
    using run_result[OF 1 2] by blast
  from l have "extra = []" by (simp add: init_def)
  then show "snd (run (init url repos 1 0 think) env) = Inl ZeroDivisionError"
    unfolding r by (simp add: init_def compute_statistics_empty)
qed

text \<open>
  Claim C6 (with no successful result the six duration statistics are 0 rather than an
  error). A runner without results has no successful result, and the duration block
  alone would yield six zeros for it, but \<^verbatim>\<open>_compute_statistics\<close> raises
  \<^verbatim>\<open>ZeroDivisionError\<close> before the block is evaluated. The lemmas
  \<open>duration_summary_percentiles\<close>, \<open>duration_summary_example\<close> and
  \<open>compute_statistics_no_success\<close> above cover the rest of the claim.
\<close>

theorem duration_zeros_not_reached_without_results:
  "filter success (results (init url repos workers requests think)) = []
   \<and> duration_summary
       (map duration_ms (filter success (results (init url repos workers requests think))))
     = Inr \<lparr>min_ms = 0, max_ms = 0, mean_ms = 0, median_ms = 0, p95 = 0, p99 = 0\<rparr>
   \<and> compute_statistics (init url repos workers requests think) total_duration
     = Inl ZeroDivisionError"
  by (simp add: init_def duration_summary_empty compute_statistics_empty)

end
